theory Spec2Isabelle
  imports Main "HOL-Library.AList"
begin

section \<open>Strings\<close>

text \<open>
  Python's \<^verbatim>\<open>s.startswith(p)\<close>, \<^verbatim>\<open>s.endswith(p)\<close>, \<^verbatim>\<open>s.split(sep)\<close> for a
  one-character separator, and \<^verbatim>\<open>sep.join(parts)\<close>. \<^verbatim>\<open>split\<close> always returns at
  least one part; the empty string splits into one empty part.
\<close>

definition startswith :: "string \<Rightarrow> string \<Rightarrow> bool" where
  "startswith s p = (take (length p) s = p)"

definition endswith :: "string \<Rightarrow> string \<Rightarrow> bool" where
  "endswith s p = (length p \<le> length s \<and> drop (length s - length p) s = p)"

fun split :: "char \<Rightarrow> string \<Rightarrow> string list" where
  "split c [] = [[]]"
| "split c (x # xs) =
     (if x = c then [] # split c xs
      else (case split c xs of [] \<Rightarrow> [[x]] | p # ps \<Rightarrow> (x # p) # ps))"

fun join :: "string \<Rightarrow> string list \<Rightarrow> string" where
  "join sep [] = []"
| "join sep [p] = p"
| "join sep (p # q # ps) = p @ sep @ join sep (q # ps)"

section \<open>The tool registry (core/tool\_registry.py)\<close>

datatype ToolType = LOCAL | MCP

text \<open>
  The exceptions that the modelled code can raise: \<^verbatim>\<open>TypeError\<close> (joining or iterating over
  \<^verbatim>\<open>None\<close>), \<^verbatim>\<open>ValueError\<close> (a constructor of the tool library that does not accept its
  command) and the failure of a connection to a provider. An operation that raises returns
  \<open>Inl\<close> of the exception.
\<close>

datatype error = TypeError | ValueError | ConnectionFailure

text \<open>
  A string-to-string dict in insertion order. Assignment \<^verbatim>\<open>d[k] = v\<close> is
  \<^const>\<open>AList.update\<close>: an existing key keeps its position, a new key goes to the end.
\<close>

type_synonym env = "(string \<times> string) list"

text \<open>
  A tool configuration dict (\<^verbatim>\<open>Dict[str, Any]\<close>), typed by the keys the registry reads:
  \<^verbatim>\<open>"command"\<close> is absent (\<open>None\<close>), present with value \<^verbatim>\<open>None\<close> (\<open>Some None\<close>) or
  present with a string; \<^verbatim>\<open>"env"\<close> is absent, present with value \<^verbatim>\<open>None\<close> or a
  string-to-string dict; every other key (\<^verbatim>\<open>"type"\<close>, \<^verbatim>\<open>"description"\<close>) is kept in
  \<open>cfg_other\<close>. A dict is truthy when it has at least one key.
\<close>

record Config =
  cfg_command :: "string option option"
  cfg_env :: "env option option"
  cfg_other :: "(string \<times> string) list"

definition empty_config :: Config where
  "empty_config = \<lparr>cfg_command = None, cfg_env = None, cfg_other = []\<rparr>"

definition config_truthy :: "Config \<Rightarrow> bool" where
  "config_truthy c = (cfg_command c \<noteq> None \<or> cfg_env c \<noteq> None \<or> cfg_other c \<noteq> [])"

text \<open>\<^verbatim>\<open>config or {}\<close>\<close>

definition config_or_empty :: "Config option \<Rightarrow> Config" where
  "config_or_empty c = (case c of None \<Rightarrow> empty_config | Some d \<Rightarrow> d)"

text \<open>\<^verbatim>\<open>config.get("command")\<close> and \<^verbatim>\<open>config.get("env", {})\<close>\<close>

definition get_command :: "Config \<Rightarrow> string option" where
  "get_command c = (case cfg_command c of None \<Rightarrow> None | Some v \<Rightarrow> v)"

definition get_env :: "Config \<Rightarrow> env option" where
  "get_env c = (case cfg_env c of None \<Rightarrow> Some [] | Some v \<Rightarrow> v)"

text \<open>\<^verbatim>\<open>env if env else None\<close>, for \<open>env\<close> that is \<^verbatim>\<open>None\<close> or a dict\<close>

definition env_or_none :: "env option \<Rightarrow> env option" where
  "env_or_none e = (case e of None \<Rightarrow> None | Some d \<Rightarrow> if d = [] then None else Some d)"

text \<open>
  A factory function of a local tool: a zero-argument callable that constructs an object
  of the named tool class, or returns \<^verbatim>\<open>None\<close>.
\<close>

datatype Factory = Makes string | MakesNone

record ToolMetadata =
  tm_name :: string
  tm_type :: ToolType
  tm_server :: "string option"
  tm_runtime_factory :: "Factory option"
  tm_config :: Config

text \<open>
  Runtime objects. The first field is the identity of the object: every constructor call
  of the source creates a new object, and two references denote the same instance exactly
  when the identities agree. \<open>MCPTools\<close> carries \<^verbatim>\<open>command\<close>, \<^verbatim>\<open>env\<close> and
  \<^verbatim>\<open>include_tools\<close>; \<open>MultiMCPTools\<close> carries the list of commands instead. All of
  them are truthy objects.
\<close>

datatype Runtime =
    LocalTool nat string
  | MCPTools nat "string option" "env option" "string list option"
  | MultiMCPTools nat "string option list" "env option" "string list option"

fun runtime_id :: "Runtime \<Rightarrow> nat" where
  "runtime_id (LocalTool i _) = i"
| "runtime_id (MCPTools i _ _ _) = i"
| "runtime_id (MultiMCPTools i _ _ _) = i"

text \<open>
  The classes \<^verbatim>\<open>MCPTools\<close> and \<^verbatim>\<open>MultiMCPTools\<close> belong to the tool library, not to
  this program. Their constructors check the command they are given and raise
  \<^verbatim>\<open>ValueError\<close> when they do not accept it (\<^verbatim>\<open>MCPTools\<close> does so for the command
  \<^verbatim>\<open>None\<close> and for a command that splits into no words). Which commands the constructors
  accept is a parameter of the model: \<open>mcp_accepts\<close> for the command of \<^verbatim>\<open>MCPTools\<close>,
  \<open>multi_accepts\<close> for the list of commands of \<^verbatim>\<open>MultiMCPTools\<close>. A constructor that
  raises creates no object.
\<close>

record Library =
  mcp_accepts :: "string option \<Rightarrow> bool"
  multi_accepts :: "string option list \<Rightarrow> bool"

text \<open>
  The registry object: the catalog \<^verbatim>\<open>_tools\<close> (a dict in insertion order), the cache
  \<^verbatim>\<open>_mcp_runtime_cache\<close>, and the number of runtime objects constructed so far, which
  is the identity given to the next one.
\<close>

record ToolRegistry =
  tools :: "(string \<times> ToolMetadata) list"
  mcp_runtime_cache :: "string \<rightharpoonup> Runtime"
  constructed :: nat

definition init_registry :: ToolRegistry where
  "init_registry = \<lparr>tools = [], mcp_runtime_cache = Map.empty, constructed = 0\<rparr>"

definition register_local_tool ::
  "ToolRegistry \<Rightarrow> string \<Rightarrow> Factory option \<Rightarrow> Config option \<Rightarrow> ToolRegistry" where
  "register_local_tool r name factory_func config =
     r\<lparr>tools := AList.update name
        \<lparr>tm_name = name, tm_type = LOCAL, tm_server = None,
         tm_runtime_factory = factory_func, tm_config = config_or_empty config\<rparr> (tools r)\<rparr>"

text \<open>
  \<^verbatim>\<open>register_mcp_tool(name, server, config)\<close>: \<open>name\<close> is \<^verbatim>\<open>None\<close> for the entry of
  the server itself. An empty name is falsy and is treated like \<^verbatim>\<open>None\<close>.
\<close>

definition full_name :: "string option \<Rightarrow> string \<Rightarrow> string" where
  "full_name name server =
     (case name of
        None \<Rightarrow> ''mcp:'' @ server
      | Some n \<Rightarrow> if n \<noteq> [] then ''mcp:'' @ server @ '':'' @ n else ''mcp:'' @ server)"

definition name_or_server :: "string option \<Rightarrow> string \<Rightarrow> string" where
  "name_or_server name server =
     (case name of None \<Rightarrow> server | Some n \<Rightarrow> if n \<noteq> [] then n else server)"

definition mcp_metadata :: "string option \<Rightarrow> string \<Rightarrow> Config option \<Rightarrow> ToolMetadata" where
  "mcp_metadata name server config =
     \<lparr>tm_name = name_or_server name server, tm_type = MCP, tm_server = Some server,
      tm_runtime_factory = None, tm_config = config_or_empty config\<rparr>"

definition register_mcp_tool ::
  "ToolRegistry \<Rightarrow> string option \<Rightarrow> string \<Rightarrow> Config option \<Rightarrow> ToolRegistry" where
  "register_mcp_tool r name server config =
     r\<lparr>tools := AList.update (full_name name server) (mcp_metadata name server config) (tools r)\<rparr>"

definition register_mcp_server_tools ::
  "ToolRegistry \<Rightarrow> string \<Rightarrow> string list \<Rightarrow> Config \<Rightarrow> ToolRegistry" where
  "register_mcp_server_tools r server ts config =
     register_mcp_tool
       (fold (\<lambda>tool r'. register_mcp_tool r' (Some tool) server (Some config)) ts r)
       None server (Some config)"

text \<open>Calling a factory constructs a new object (or returns \<^verbatim>\<open>None\<close>).\<close>

fun call_factory :: "ToolRegistry \<Rightarrow> Factory \<Rightarrow> ToolRegistry \<times> Runtime option" where
  "call_factory r (Makes cls) =
     (r\<lparr>constructed := Suc (constructed r)\<rparr>, Some (LocalTool (constructed r) cls))"
| "call_factory r MakesNone = (r, None)"

text \<open>
  The loop of \<^verbatim>\<open>_get_mcp_runtime\<close> over the catalog: the names of the server's entries
  and the last truthy configuration among them.
\<close>

definition scan_step ::
  "string \<Rightarrow> string \<times> ToolMetadata \<Rightarrow> string list \<times> Config option \<Rightarrow> string list \<times> Config option" where
  "scan_step server item acc =
     (let metadata = snd item; server_tools = fst acc; server_config = snd acc in
      if tm_type metadata = MCP \<and> tm_server metadata = Some server then
        (if tm_name metadata \<noteq> [] then server_tools @ [tm_name metadata] else server_tools,
         if config_truthy (tm_config metadata) then Some (tm_config metadata) else server_config)
      else acc)"

definition scan_server ::
  "(string \<times> ToolMetadata) list \<Rightarrow> string \<Rightarrow> string list \<times> Config option" where
  "scan_server items server = fold (scan_step server) items ([], None)"

definition get_mcp_runtime ::
  "Library \<Rightarrow> ToolRegistry \<Rightarrow> string \<Rightarrow> ToolRegistry \<times> (error + Runtime option)" where
  "get_mcp_runtime lib r tool_ref =
     (case mcp_runtime_cache r tool_ref of
        Some cached \<Rightarrow> (r, Inr (Some cached))
      | None \<Rightarrow>
          (let parts = split CHR '':'' tool_ref in
           if length parts < 2 then (r, Inr None)
           else
             (let server = parts ! 1;
                  specific_tools = (if length parts > 2 then Some (drop 2 parts) else None)
              in case snd (scan_server (tools r) server) of
                   None \<Rightarrow> (r, Inr None)
                 | Some server_config \<Rightarrow>
                     if mcp_accepts lib (get_command server_config) then
                       (let mcp_runtime =
                              MCPTools (constructed r) (get_command server_config)
                                (env_or_none (get_env server_config)) specific_tools
                        in (r\<lparr>mcp_runtime_cache := (mcp_runtime_cache r)(tool_ref \<mapsto> mcp_runtime),
                              constructed := Suc (constructed r)\<rparr>,
                            Inr (Some mcp_runtime)))
                     else (r, Inl ValueError))))"

definition get_tool_runtime ::
  "Library \<Rightarrow> ToolRegistry \<Rightarrow> string \<Rightarrow> ToolRegistry \<times> (error + Runtime option)" where
  "get_tool_runtime lib r tool_ref =
     (case map_of (tools r) tool_ref of
        Some metadata \<Rightarrow>
          if tm_type metadata = LOCAL then
            (case tm_runtime_factory metadata of
               Some f \<Rightarrow> (fst (call_factory r f), Inr (snd (call_factory r f)))
             | None \<Rightarrow> (r, Inr None))
          else if startswith tool_ref ''mcp:'' then get_mcp_runtime lib r tool_ref
          else (r, Inr None)
      | None \<Rightarrow>
          if startswith tool_ref ''mcp:'' then get_mcp_runtime lib r tool_ref else (r, Inr None))"

text \<open>
  \<^verbatim>\<open>_get_combined_mcp_runtime\<close>. \<open>servers\<close> is the dict from a server name to its
  command and tool filter; \<open>first_config\<close> is the inner loop, which stops at the first
  catalog entry that \<open>serves\<close> the server: an MCP entry of that server with a truthy
  configuration.
\<close>

definition serves :: "string \<Rightarrow> string \<times> ToolMetadata \<Rightarrow> bool" where
  "serves server item =
     (tm_type (snd item) = MCP \<and> tm_server (snd item) = Some server \<and>
      config_truthy (tm_config (snd item)))"

definition first_config :: "(string \<times> ToolMetadata) list \<Rightarrow> string \<Rightarrow> Config option" where
  "first_config items server =
     (case filter (serves server) items of
        [] \<Rightarrow> None
      | item # _ \<Rightarrow> Some (tm_config (snd item)))"

text \<open>\<^verbatim>\<open>all_env.update(env)\<close>\<close>

definition dict_update :: "env \<Rightarrow> env \<Rightarrow> env" where
  "dict_update d e = fold (\<lambda>kv d'. AList.update (fst kv) (snd kv) d') e d"

type_synonym server_info = "string option \<times> string list option"

text \<open>
  One round of the loop over the references. \<^verbatim>\<open>all_env.update(env)\<close> raises TypeError
  when the configuration holds \<^verbatim>\<open>None\<close> under \<^verbatim>\<open>"env"\<close>.
\<close>

definition combine_step ::
  "(string \<times> ToolMetadata) list \<Rightarrow> string \<Rightarrow>
   (string \<times> server_info) list \<times> env \<Rightarrow> error + (string \<times> server_info) list \<times> env" where
  "combine_step items ref acc =
     (let parts = split CHR '':'' ref in
      if length parts < 2 then Inr acc
      else
        (let server = parts ! 1;
             ts = (if length parts > 2 then Some (split CHR '','' (parts ! 2)) else None)
         in case first_config items server of
              None \<Rightarrow> Inr acc
            | Some config \<Rightarrow>
                if map_of (fst acc) server = None then
                  (case get_env config of
                     None \<Rightarrow> Inl TypeError
                   | Some e \<Rightarrow>
                       Inr (fst acc @ [(server, (get_command config, ts))],
                            dict_update (snd acc) e))
                else Inr acc))"

fun collect_loop ::
  "(string \<times> ToolMetadata) list \<Rightarrow> string list \<Rightarrow>
   (string \<times> server_info) list \<times> env \<Rightarrow> error + (string \<times> server_info) list \<times> env" where
  "collect_loop items [] acc = Inr acc"
| "collect_loop items (ref # refs) acc =
     (case combine_step items ref acc of
        Inl e \<Rightarrow> Inl e
      | Inr acc' \<Rightarrow> collect_loop items refs acc')"

definition collect_servers ::
  "(string \<times> ToolMetadata) list \<Rightarrow> string list \<Rightarrow>
   error + (string \<times> server_info) list \<times> env" where
  "collect_servers items mcp_refs = collect_loop items mcp_refs ([], [])"

text \<open>
  \<^verbatim>\<open>include_tools.extend(info["tools"])\<close> for every server whose filter is truthy.
\<close>

definition extend_tools :: "string list \<Rightarrow> server_info \<Rightarrow> string list" where
  "extend_tools include_tools info =
     (case snd info of
        None \<Rightarrow> include_tools
      | Some ts \<Rightarrow> if ts \<noteq> [] then include_tools @ ts else include_tools)"

text \<open>
  The handle that is constructed from the collected servers: none for no server,
  \<^verbatim>\<open>MCPTools\<close> for one, \<^verbatim>\<open>MultiMCPTools\<close> for several.
\<close>

definition combined_handle ::
  "Library \<Rightarrow> ToolRegistry \<Rightarrow> (string \<times> server_info) list \<Rightarrow> env \<Rightarrow>
   ToolRegistry \<times> (error + Runtime option)" where
  "combined_handle lib r servers all_env =
     (case servers of
        [] \<Rightarrow> (r, Inr None)
      | [(server_name, server_info)] \<Rightarrow>
          if mcp_accepts lib (fst server_info) then
            (r\<lparr>constructed := Suc (constructed r)\<rparr>,
             Inr (Some (MCPTools (constructed r) (fst server_info) (env_or_none (Some all_env))
                          (snd server_info))))
          else (r, Inl ValueError)
      | _ \<Rightarrow>
          (let commands = map (\<lambda>kv. fst (snd kv)) servers;
               include_tools = fold (\<lambda>kv acc. extend_tools acc (snd kv)) servers []
           in if multi_accepts lib commands then
                (r\<lparr>constructed := Suc (constructed r)\<rparr>,
                 Inr (Some (MultiMCPTools (constructed r) commands (env_or_none (Some all_env))
                              (if include_tools \<noteq> [] then Some include_tools else None))))
              else (r, Inl ValueError)))"

definition get_combined_mcp_runtime ::
  "Library \<Rightarrow> ToolRegistry \<Rightarrow> string list \<Rightarrow> ToolRegistry \<times> (error + Runtime option)" where
  "get_combined_mcp_runtime lib r mcp_refs =
     (case collect_servers (tools r) mcp_refs of
        Inl e \<Rightarrow> (r, Inl e)
      | Inr (servers, all_env) \<Rightarrow> combined_handle lib r servers all_env)"

text \<open>
  \<^verbatim>\<open>get_tools_for_agent\<close>: the loop keeps the registry, the list \<open>tools\<close> of runtime
  objects obtained so far and the list \<open>mcp_configs\<close> of the references set aside. An
  exception ends the call; the registry is returned as it is at that moment.
\<close>

fun agent_loop ::
  "Library \<Rightarrow> string list \<Rightarrow> ToolRegistry \<times> Runtime list \<times> string list \<Rightarrow>
   ToolRegistry \<times> (error + Runtime list \<times> string list)" where
  "agent_loop lib [] (r, tls, mcp_configs) = (r, Inr (tls, mcp_configs))"
| "agent_loop lib (ref # refs) (r, tls, mcp_configs) =
     (if startswith ref ''mcp:'' then agent_loop lib refs (r, tls, mcp_configs @ [ref])
      else
        (case get_tool_runtime lib r ref of
           (r', Inl e) \<Rightarrow> (r', Inl e)
         | (r', Inr (Some tool)) \<Rightarrow> agent_loop lib refs (r', tls @ [tool], mcp_configs)
         | (r', Inr None) \<Rightarrow> agent_loop lib refs (r', tls, mcp_configs)))"

definition get_tools_for_agent ::
  "Library \<Rightarrow> ToolRegistry \<Rightarrow> string list \<Rightarrow> ToolRegistry \<times> (error + Runtime list)" where
  "get_tools_for_agent lib r tool_refs =
     (case agent_loop lib tool_refs (r, [], []) of
        (r', Inl e) \<Rightarrow> (r', Inl e)
      | (r', Inr (tls, mcp_configs)) \<Rightarrow>
          if mcp_configs \<noteq> [] then
            (case get_combined_mcp_runtime lib r' mcp_configs of
               (r'', Inl e) \<Rightarrow> (r'', Inl e)
             | (r'', Inr (Some mcp_tools)) \<Rightarrow> (r'', Inr (tls @ [mcp_tools]))
             | (r'', Inr None) \<Rightarrow> (r'', Inr tls))
          else (r', Inr tls))"

definition clear_mcp_cache :: "ToolRegistry \<Rightarrow> ToolRegistry" where
  "clear_mcp_cache r = r\<lparr>mcp_runtime_cache := Map.empty\<rparr>"


section \<open>Launch commands and environment placeholders\<close>

text \<open>
  A provider description of \<^verbatim>\<open>mcp_config.yaml\<close>: \<^verbatim>\<open>type\<close>, \<^verbatim>\<open>command\<close>, \<^verbatim>\<open>args\<close> and
  \<^verbatim>\<open>env\<close>, each of which may be absent. \<^verbatim>\<open>command\<close>, \<^verbatim>\<open>args\<close> and \<^verbatim>\<open>env\<close> may
  also be present with the value \<^verbatim>\<open>None\<close> (an empty YAML value), written \<open>Some None\<close>.
\<close>

record ServerConfig =
  sc_type :: "string option"
  sc_command :: "string option option"
  sc_args :: "string list option option"
  sc_env :: "env option option"

text \<open>
  \<^verbatim>\<open>_resolve_env_vars\<close> on a string: \<^verbatim>\<open>${VAR}\<close> becomes \<^verbatim>\<open>os.getenv(VAR, "")\<close>, where
  \<open>VAR\<close> is \<^verbatim>\<open>value[2:-1]\<close>. The process environment is the parameter \<open>getenv\<close>.
\<close>

definition resolve_env_vars :: "(string \<Rightarrow> string option) \<Rightarrow> string \<Rightarrow> string" where
  "resolve_env_vars getenv v =
     (if startswith v ''${'' \<and> endswith v ''}'' then
        (case getenv (butlast (drop 2 v)) of None \<Rightarrow> [] | Some x \<Rightarrow> x)
      else v)"

definition resolve_env :: "(string \<Rightarrow> string option) \<Rightarrow> env \<Rightarrow> env" where
  "resolve_env getenv e = map (\<lambda>kv. (fst kv, resolve_env_vars getenv (snd kv))) e"

text \<open>
  \<^verbatim>\<open>self._resolve_env_vars(server_config.get("env", {}))\<close>: the empty dict when the key
  is absent, \<^verbatim>\<open>None\<close> when its value is \<^verbatim>\<open>None\<close>.
\<close>

definition resolved_env :: "(string \<Rightarrow> string option) \<Rightarrow> ServerConfig \<Rightarrow> env option" where
  "resolved_env getenv server_config =
     (case sc_env server_config of
        None \<Rightarrow> Some []
      | Some None \<Rightarrow> None
      | Some (Some e) \<Rightarrow> Some (resolve_env getenv e))"

text \<open>
  \<^verbatim>\<open>_build_command\<close> (and \<^verbatim>\<open>build_mcp_command\<close>, which has the same body): the
  command and its arguments joined by a space, \<^verbatim>\<open>None\<close> when there is neither. A
  \<^verbatim>\<open>None\<close> command is appended as it is, and \<^verbatim>\<open>" ".join\<close> then raises TypeError;
  so does \<^verbatim>\<open>extend\<close> on \<^verbatim>\<open>None\<close> arguments.
\<close>

definition build_command ::
  "(string \<Rightarrow> string option) \<Rightarrow> ServerConfig \<Rightarrow> error + string option" where
  "build_command getenv server_config =
     (case sc_args server_config of
        Some None \<Rightarrow> Inl TypeError
      | None \<Rightarrow>
          (case sc_command server_config of
             Some None \<Rightarrow> Inl TypeError
           | None \<Rightarrow> Inr None
           | Some (Some c) \<Rightarrow> Inr (Some (join '' '' [resolve_env_vars getenv c])))
      | Some (Some a) \<Rightarrow>
          (let args = map (resolve_env_vars getenv) a in
           case sc_command server_config of
             Some None \<Rightarrow> Inl TypeError
           | None \<Rightarrow> Inr (if args = [] then None else Some (join '' '' args))
           | Some (Some c) \<Rightarrow> Inr (Some (join '' '' (resolve_env_vars getenv c # args)))))"

section \<open>The dynamic tool loader (agents/tool\_loader.py)\<close>

text \<open>
  \<^verbatim>\<open>str.strip()\<close>: whitespace is removed at both ends. The whitespace characters among
  the first 256 code points are 9 to 13, 28 to 32, 133 and 160.
\<close>

definition is_space :: "char \<Rightarrow> bool" where
  "is_space c =
     (let n = (of_char c :: nat) in (9 \<le> n \<and> n \<le> 13) \<or> (28 \<le> n \<and> n \<le> 32) \<or> n = 133 \<or> n = 160)"

definition strip :: "string \<Rightarrow> string" where
  "strip s = rev (dropWhile is_space (rev (dropWhile is_space s)))"

text \<open>\<^verbatim>\<open>s.index(c)\<close> for a character that occurs in \<open>s\<close>.\<close>

definition index :: "string \<Rightarrow> char \<Rightarrow> nat" where
  "index s c = length (takeWhile (\<lambda>x. x \<noteq> c) s)"

text \<open>
  The slice \<^verbatim>\<open>s[i:j]\<close> for indices within the string; it is empty when \<open>j \<le> i\<close>.
\<close>

definition slice :: "string \<Rightarrow> nat \<Rightarrow> nat \<Rightarrow> string" where
  "slice s i j = take (j - i) (drop i s)"

record ParseResult =
  pr_commands :: "string list"
  pr_env :: env
  pr_include_tools :: "string list option"
  pr_servers :: "(string \<times> string list option) list"

text \<open>
  How \<^verbatim>\<open>parse_mcp_config\<close> reads the text after the prefix \<^verbatim>\<open>mcp:\<close>. When both
  bracket characters occur in it, the server name is the text before the first opening
  bracket and the tools are the comma-separated, stripped parts of the text between the
  first opening and the first closing bracket; otherwise the whole text is the server
  name and there are no tools.
\<close>

definition bracketed :: "string \<Rightarrow> bool" where
  "bracketed config = (CHR ''['' \<in> set config \<and> CHR '']'' \<in> set config)"

definition read_server_name :: "string \<Rightarrow> string" where
  "read_server_name config =
     (if bracketed config then take (index config CHR ''['') config else config)"

definition read_tools :: "string \<Rightarrow> string list option" where
  "read_tools config =
     (if bracketed config then
        Some (map strip (split CHR '',''
          (slice config (index config CHR ''['' + 1) (index config CHR '']''))))
      else None)"

text \<open>
  The loop of \<^verbatim>\<open>parse_mcp_config\<close> keeps \<^verbatim>\<open>result\<close> (whose \<^verbatim>\<open>include_tools\<close> is
  still \<^verbatim>\<open>None\<close>) and \<^verbatim>\<open>all_include_tools\<close>. \<open>mcp_servers\<close> is the
  \<^verbatim>\<open>mcp_servers\<close> section of the loader's configuration. \<^verbatim>\<open>result["env"].update(env)\<close>
  raises TypeError when the provider's \<^verbatim>\<open>env\<close> is \<^verbatim>\<open>None\<close>.
\<close>

definition parse_step ::
  "(string \<Rightarrow> string option) \<Rightarrow> (string \<times> ServerConfig) list \<Rightarrow> string \<Rightarrow>
   ParseResult \<times> string list \<Rightarrow> error + ParseResult \<times> string list" where
  "parse_step getenv mcp_servers config0 acc =
     (if startswith config0 ''mcp:'' then
        (let config = drop 4 config0;
             server_name = read_server_name config;
             ts = read_tools config;
             all_include_tools = (case ts of None \<Rightarrow> snd acc | Some l \<Rightarrow> snd acc @ l);
             result = fst acc
         in case map_of mcp_servers server_name of
              None \<Rightarrow> Inr (result, all_include_tools)
            | Some server_config \<Rightarrow>
                if sc_type server_config = Some ''stdio'' then
                  (case build_command getenv server_config of
                     Inl e \<Rightarrow> Inl e
                   | Inr None \<Rightarrow> Inr (result, all_include_tools)
                   | Inr (Some command) \<Rightarrow>
                       if command \<noteq> [] then
                         (case resolved_env getenv server_config of
                            None \<Rightarrow> Inl TypeError
                          | Some e \<Rightarrow>
                              Inr (result\<lparr>pr_commands := pr_commands result @ [command],
                                     pr_servers := AList.update server_name ts (pr_servers result),
                                     pr_env := dict_update (pr_env result) e\<rparr>,
                                   all_include_tools))
                       else Inr (result, all_include_tools))
                else Inr (result, all_include_tools))
      else Inr acc)"

fun parse_loop ::
  "(string \<Rightarrow> string option) \<Rightarrow> (string \<times> ServerConfig) list \<Rightarrow> string list \<Rightarrow>
   ParseResult \<times> string list \<Rightarrow> error + ParseResult \<times> string list" where
  "parse_loop getenv mcp_servers [] acc = Inr acc"
| "parse_loop getenv mcp_servers (config # configs) acc =
     (case parse_step getenv mcp_servers config acc of
        Inl e \<Rightarrow> Inl e
      | Inr acc' \<Rightarrow> parse_loop getenv mcp_servers configs acc')"

definition empty_result :: ParseResult where
  "empty_result = \<lparr>pr_commands = [], pr_env = [], pr_include_tools = None, pr_servers = []\<rparr>"

definition parse_mcp_config ::
  "(string \<Rightarrow> string option) \<Rightarrow> (string \<times> ServerConfig) list \<Rightarrow> string list \<Rightarrow>
   error + ParseResult" where
  "parse_mcp_config getenv mcp_servers mcp_configs =
     (case parse_loop getenv mcp_servers mcp_configs (empty_result, []) of
        Inl e \<Rightarrow> Inl e
      | Inr (result, all_include_tools) \<Rightarrow>
          Inr (if all_include_tools \<noteq> [] then result\<lparr>pr_include_tools := Some all_include_tools\<rparr>
               else result))"

section \<open>The server manager (core/mcp\_server\_manager.py)\<close>

text \<open>
  The manager object: the \<^verbatim>\<open>mcp_servers\<close> section of its configuration and the
  memo \<^verbatim>\<open>initialized_servers\<close>. It registers into the global registry, so its
  operations pass the pair of the manager and the registry.
\<close>

record MCPServerManager =
  mcp_servers :: "(string \<times> ServerConfig) list"
  initialized_servers :: "(string \<times> bool) list"

text \<open>
  The connection that \<^verbatim>\<open>discover_server_tools\<close> opens is outside the program. Its
  outcome is the parameter \<open>probe\<close>: for the server probed, with the command and the
  environment given to \<^verbatim>\<open>MCPTools\<close>, either the names that \<^verbatim>\<open>list_tools\<close> returns or
  a failure of the connection. Every exception is caught and gives the empty list.
\<close>

type_synonym probe = "string \<Rightarrow> string \<Rightarrow> env option \<Rightarrow> error + string list"

definition discover_server_tools ::
  "(string \<Rightarrow> string option) \<Rightarrow> probe \<Rightarrow> string \<Rightarrow> ServerConfig \<Rightarrow> string list" where
  "discover_server_tools getenv probe server_name server_config =
     (case build_command getenv server_config of
        Inl e \<Rightarrow> []
      | Inr None \<Rightarrow> []
      | Inr (Some command) \<Rightarrow>
          if command = [] then []
          else
            (case probe server_name command (env_or_none (resolved_env getenv server_config)) of
               Inl e \<Rightarrow> []
             | Inr ts \<Rightarrow> ts))"

definition initialize_server ::
  "(string \<Rightarrow> string option) \<Rightarrow> probe \<Rightarrow> MCPServerManager \<times> ToolRegistry \<Rightarrow> string \<Rightarrow>
   (MCPServerManager \<times> ToolRegistry) \<times> bool" where
  "initialize_server getenv probe st server_name =
     (let m = fst st; r = snd st in
      case map_of (initialized_servers m) server_name of
        Some status \<Rightarrow> (st, status)
      | None \<Rightarrow>
          (case map_of (mcp_servers m) server_name of
             None \<Rightarrow> (st, False)
           | Some server_config \<Rightarrow>
               if sc_type server_config \<noteq> Some ''stdio'' then (st, False)
               else
                 (case build_command getenv server_config of
                    Inl e \<Rightarrow>
                      ((m\<lparr>initialized_servers :=
                            AList.update server_name False (initialized_servers m)\<rparr>, r), False)
                  | Inr command \<Rightarrow>
                      (let runtime_config =
                             \<lparr>cfg_command = Some command,
                              cfg_env = Some (resolved_env getenv server_config),
                              cfg_other = [(''type'', ''stdio'')]\<rparr>;
                           ts = discover_server_tools getenv probe server_name server_config;
                           r' = (if ts \<noteq> [] then
                                   register_mcp_server_tools r server_name ts runtime_config
                                 else register_mcp_tool r None server_name (Some runtime_config))
                       in ((m\<lparr>initialized_servers :=
                                AList.update server_name True (initialized_servers m)\<rparr>, r'),
                           True)))))"

text \<open>
  \<^verbatim>\<open>initialize_all_servers\<close> starts one task for each configured server and gathers
  them. A task reads and writes only its own entry of the memo, and registers after its
  probe has returned, so the tasks take effect one after another in the order in which
  they finish; that order is the parameter \<open>order\<close>, a permutation of the configured
  names. The statuses are put into \<^verbatim>\<open>results\<close> in the order of the configuration.
  \<^verbatim>\<open>initialize_server\<close> raises nothing past its own handler on a configuration of
  this type, so no gathered status is an exception.
\<close>

fun run_tasks ::
  "(string \<Rightarrow> string option) \<Rightarrow> probe \<Rightarrow> string list \<Rightarrow> MCPServerManager \<times> ToolRegistry \<Rightarrow>
   (MCPServerManager \<times> ToolRegistry) \<times> (string \<times> bool) list" where
  "run_tasks getenv probe [] st = (st, [])"
| "run_tasks getenv probe (server_name # rest) st =
     (case initialize_server getenv probe st server_name of
        (st', status) \<Rightarrow>
          (case run_tasks getenv probe rest st' of
             (st'', statuses) \<Rightarrow> (st'', (server_name, status) # statuses)))"

definition initialize_all_servers ::
  "(string \<Rightarrow> string option) \<Rightarrow> probe \<Rightarrow> string list \<Rightarrow> MCPServerManager \<times> ToolRegistry \<Rightarrow>
   (MCPServerManager \<times> ToolRegistry) \<times> (string \<times> bool) list" where
  "initialize_all_servers getenv probe order st =
     (case run_tasks getenv probe order st of
        (st', statuses) \<Rightarrow>
          (st', map (\<lambda>server_name.
                       (server_name,
                        case map_of statuses server_name of None \<Rightarrow> False | Some status \<Rightarrow> status))
                  (map fst (mcp_servers (fst st)))))"


section \<open>Reference models and example data\<close>

text \<open>
  \<open>resolveMany\<close> as the specification words it: the references that do not start with
  \<^verbatim>\<open>mcp:\<close> are resolved one by one, in input order; the others are resolved together
  by one combination request, whose handle (if any) comes last. An exception ends it.
\<close>

fun resolve_each ::
  "Library \<Rightarrow> ToolRegistry \<Rightarrow> string list \<Rightarrow> ToolRegistry \<times> (error + Runtime list)" where
  "resolve_each lib r [] = (r, Inr [])"
| "resolve_each lib r (ref # refs) =
     (case get_tool_runtime lib r ref of
        (r', Inl e) \<Rightarrow> (r', Inl e)
      | (r', Inr t) \<Rightarrow>
          (case resolve_each lib r' refs of
             (r'', Inl e) \<Rightarrow> (r'', Inl e)
           | (r'', Inr ts) \<Rightarrow> (r'', Inr ((case t of None \<Rightarrow> [] | Some v \<Rightarrow> [v]) @ ts))))"

definition resolveMany ::
  "Library \<Rightarrow> ToolRegistry \<Rightarrow> string list \<Rightarrow> ToolRegistry \<times> (error + Runtime list)" where
  "resolveMany lib r refs =
     (let locals = filter (\<lambda>ref. \<not> startswith ref ''mcp:'') refs;
          remotes = filter (\<lambda>ref. startswith ref ''mcp:'') refs
      in case resolve_each lib r locals of
           (r', Inl e) \<Rightarrow> (r', Inl e)
         | (r', Inr ts) \<Rightarrow>
             if remotes = [] then (r', Inr ts)
             else (case get_combined_mcp_runtime lib r' remotes of
                     (r'', Inl e) \<Rightarrow> (r'', Inl e)
                   | (r'', Inr h) \<Rightarrow>
                       (r'', Inr (ts @ (case h of None \<Rightarrow> [] | Some v \<Rightarrow> [v])))))"

fun is_local_tool :: "Runtime \<Rightarrow> bool" where
  "is_local_tool (LocalTool _ _) = True"
| "is_local_tool _ = False"

text \<open>
  The tool library on commands without quotes and backslashes: a command is accepted when
  it is a string with at least one word, the words being separated by blanks, tabs and
  line breaks; \<^verbatim>\<open>MultiMCPTools\<close> accepts a list in which every command is accepted.
\<close>

definition shell_blank :: "char \<Rightarrow> bool" where
  "shell_blank c = (c = CHR '' '' \<or> c = CHR 0x09 \<or> c = CHR 0x0A \<or> c = CHR 0x0D)"

definition has_word :: "string option \<Rightarrow> bool" where
  "has_word command =
     (case command of None \<Rightarrow> False | Some s \<Rightarrow> filter (\<lambda>c. \<not> shell_blank c) s \<noteq> [])"

definition agno :: Library where
  "agno = \<lparr>mcp_accepts = has_word, multi_accepts = list_all has_word\<rparr>"

text \<open>
  A registry as the start-up code builds it: one local tool, and the provider
  \<^verbatim>\<open>custom_tools\<close> with two discovered capabilities.
\<close>

definition demo_config :: Config where
  "demo_config = \<lparr>cfg_command = Some (Some ''python custom_tools_server.py''),
     cfg_env = Some (Some []), cfg_other = [(''type'', ''stdio'')]\<rparr>"

definition demo_registry :: ToolRegistry where
  "demo_registry =
     register_mcp_server_tools
       (register_local_tool init_registry ''DuckDuckGoTools'' (Some (Makes ''DuckDuckGoTools''))
          (Some \<lparr>cfg_command = None, cfg_env = None,
                 cfg_other = [(''description'', ''Web search'')]\<rparr>))
       ''custom_tools'' [''generate_id'', ''get_timestamp''] demo_config"

definition demo_refs :: "string list" where
  "demo_refs = [''mcp:custom_tools:generate_id'', ''DuckDuckGoTools'', ''Unknown'',
     ''DuckDuckGoTools'', ''mcp:custom_tools:get_timestamp'']"


text \<open>The same runtime object contents under another identity.\<close>

fun relabel :: "nat \<Rightarrow> Runtime \<Rightarrow> Runtime" where
  "relabel i (LocalTool _ cls) = LocalTool i cls"
| "relabel i (MCPTools _ command e ts) = MCPTools i command e ts"
| "relabel i (MultiMCPTools _ commands e ts) = MultiMCPTools i commands e ts"

text \<open>
  How \<^verbatim>\<open>_get_combined_mcp_runtime\<close> reads one reference: the provider it names and the
  capability filter it requests.
\<close>

definition names_server :: "string \<Rightarrow> string \<Rightarrow> bool" where
  "names_server server ref =
     (2 \<le> length (split CHR '':'' ref) \<and> split CHR '':'' ref ! 1 = server)"

definition requested_tools :: "string \<Rightarrow> string list option" where
  "requested_tools ref =
     (if 2 < length (split CHR '':'' ref) then Some (split CHR '','' (split CHR '':'' ref ! 2))
      else None)"

text \<open>
  A combination request resolves a provider when one of its references names the provider
  and the catalog has an entry that serves it. The filters that the collected servers
  contribute to \<^verbatim>\<open>MultiMCPTools\<close>.
\<close>

definition resolves :: "(string \<times> ToolMetadata) list \<Rightarrow> string list \<Rightarrow> string \<Rightarrow> bool" where
  "resolves items refs server =
     (filter (names_server server) refs \<noteq> [] \<and> first_config items server \<noteq> None)"

definition all_filters :: "(string \<times> server_info) list \<Rightarrow> string list option" where
  "all_filters servers =
     (let l = concat (map (\<lambda>kv. case snd (snd kv) of None \<Rightarrow> [] | Some ts \<Rightarrow> ts) servers)
      in if l = [] then None else Some l)"

text \<open>
  The catalog serves a reference for the library when the reference starts with
  \<^verbatim>\<open>mcp:\<close>, is not the key of a local tool, and the loop of \<^verbatim>\<open>_get_mcp_runtime\<close> finds
  a configuration for its provider whose command the library accepts. The identities of
  the cached handles are below the counter when each of them was counted at its
  construction.
\<close>

definition local_key :: "(string \<times> ToolMetadata) list \<Rightarrow> string \<Rightarrow> bool" where
  "local_key items ref =
     (case map_of items ref of None \<Rightarrow> False | Some metadata \<Rightarrow> tm_type metadata = LOCAL)"

definition served :: "Library \<Rightarrow> (string \<times> ToolMetadata) list \<Rightarrow> string \<Rightarrow> bool" where
  "served lib items ref =
     (startswith ref ''mcp:'' \<and> \<not> local_key items ref \<and> 2 \<le> length (split CHR '':'' ref) \<and>
      (case snd (scan_server items (split CHR '':'' ref ! 1)) of
         None \<Rightarrow> False
       | Some server_config \<Rightarrow> mcp_accepts lib (get_command server_config)))"

definition identities_below :: "ToolRegistry \<Rightarrow> bool" where
  "identities_below r = (\<forall>h \<in> ran (mcp_runtime_cache r). runtime_id h < constructed r)"

text \<open>
  A second provider, for requests that span two providers, and a provider as the server
  manager registers it when its configuration has neither command nor arguments.
\<close>

definition nocmd_config :: Config where
  "nocmd_config = \<lparr>cfg_command = Some None, cfg_env = Some (Some []),
     cfg_other = [(''type'', ''stdio'')]\<rparr>"

definition nocmd_registry :: ToolRegistry where
  "nocmd_registry = register_mcp_tool demo_registry None ''nocmd'' (Some nocmd_config)"

definition github_config :: Config where
  "github_config = \<lparr>cfg_command = Some (Some ''npx github-mcp''),
     cfg_env = Some (Some [(''GITHUB_TOKEN'', ''t0'')]), cfg_other = [(''type'', ''stdio'')]\<rparr>"

definition demo_registry2 :: ToolRegistry where
  "demo_registry2 = register_mcp_server_tools demo_registry ''github'' [''create_issue''] github_config"

text \<open>
  An entry of the catalog is in place for a capability name (or for the server itself,
  \<open>None\<close>) when the key that \<^verbatim>\<open>register_mcp_tool\<close> writes holds the metadata that it
  writes.
\<close>

definition registered :: "ToolRegistry \<Rightarrow> string \<Rightarrow> Config option \<Rightarrow> string option \<Rightarrow> bool" where
  "registered r server c n =
     (map_of (tools r) (full_name n server) = Some (mcp_metadata n server c))"

text \<open>
  A loader configuration with two providers, and a process environment in which no
  variable is set.
\<close>

definition demo_servers :: "(string \<times> ServerConfig) list" where
  "demo_servers =
     [(''custom_tools'', \<lparr>sc_type = Some ''stdio'', sc_command = Some (Some ''python''),
         sc_args = Some (Some [''custom_tools_server.py'']), sc_env = None\<rparr>),
      (''github'', \<lparr>sc_type = Some ''stdio'', sc_command = Some (Some ''npx''),
         sc_args = Some (Some [''github-mcp'']),
         sc_env = Some (Some [(''GITHUB_TOKEN'', ''${GITHUB_TOKEN}'')])\<rparr>)]"

definition no_env :: "string \<Rightarrow> string option" where
  "no_env name = None"

text \<open>
  A provider description is well typed when none of \<^verbatim>\<open>command\<close>, \<^verbatim>\<open>args\<close> and
  \<^verbatim>\<open>env\<close> is present with the value \<^verbatim>\<open>None\<close>.
\<close>

definition well_typed :: "ServerConfig \<Rightarrow> bool" where
  "well_typed sc =
     (sc_command sc \<noteq> Some None \<and> sc_args sc \<noteq> Some None \<and> sc_env sc \<noteq> Some None)"

text \<open>
  The capability names that a reference adds to \<^verbatim>\<open>all_include_tools\<close>.
\<close>

definition filter_of :: "string \<Rightarrow> string list" where
  "filter_of c = (case read_tools c of None \<Rightarrow> [] | Some l \<Rightarrow> l)"

text \<open>
  The registry follows the reference grammar when no provider name in the catalog
  contains an opening bracket, no local tool is registered under a name that starts with
  \<^verbatim>\<open>mcp:\<close>, and the provider part of every cached reference is free of brackets as well.
\<close>

definition bracket_free :: "ToolRegistry \<Rightarrow> bool" where
  "bracket_free r =
     ((\<forall>item \<in> set (tools r).
         (tm_type (snd item) = LOCAL \<longrightarrow> \<not> startswith (fst item) ''mcp:'') \<and>
         (\<forall>s. tm_server (snd item) = Some s \<longrightarrow> CHR ''['' \<notin> set s)) \<and>
      (\<forall>k \<in> dom (mcp_runtime_cache r).
         2 \<le> length (split CHR '':'' k) \<longrightarrow> CHR ''['' \<notin> set (split CHR '':'' k ! 1)))"

text \<open>
  A provider can be launched when its type is \<^verbatim>\<open>stdio\<close> and building its command does
  not raise. \<open>catalog_keys\<close> are the keys of the registry's catalog, and a provider is
  registered when the catalog has its server-wide key and a key for every non-empty
  capability name that its discovery returned.
\<close>

definition launchable :: "(string \<Rightarrow> string option) \<Rightarrow> ServerConfig \<Rightarrow> bool" where
  "launchable getenv server_config =
     (sc_type server_config = Some ''stdio'' \<and>
      (case build_command getenv server_config of Inl e \<Rightarrow> False | Inr command \<Rightarrow> True))"

definition catalog_keys :: "MCPServerManager \<times> ToolRegistry \<Rightarrow> string set" where
  "catalog_keys st = fst ` set (tools (snd st))"

definition provider_registered ::
  "(string \<Rightarrow> string option) \<Rightarrow> probe \<Rightarrow> MCPServerManager \<times> ToolRegistry \<Rightarrow>
   string \<Rightarrow> ServerConfig \<Rightarrow> bool" where
  "provider_registered getenv probe st n sc =
     (''mcp:'' @ n \<in> catalog_keys st \<and>
      (\<forall>t \<in> set (discover_server_tools getenv probe n sc). t \<noteq> [] \<longrightarrow>
         ''mcp:'' @ n @ '':'' @ t \<in> catalog_keys st))"

text \<open>
  Three configured providers. The probe of \<^verbatim>\<open>B\<close> always fails; those of \<^verbatim>\<open>A\<close> and
  \<^verbatim>\<open>C\<close> list capabilities. The second manager adds a provider \<^verbatim>\<open>D\<close> whose
  \<^verbatim>\<open>command\<close> value is empty and a provider \<^verbatim>\<open>E\<close> of another type.
\<close>

definition three_servers :: "(string \<times> ServerConfig) list" where
  "three_servers =
     [(''A'', \<lparr>sc_type = Some ''stdio'', sc_command = Some (Some ''python''),
         sc_args = Some (Some [''a.py'']), sc_env = None\<rparr>),
      (''B'', \<lparr>sc_type = Some ''stdio'', sc_command = Some (Some ''python''),
         sc_args = Some (Some [''b.py'']), sc_env = None\<rparr>),
      (''C'', \<lparr>sc_type = Some ''stdio'', sc_command = Some (Some ''python''),
         sc_args = Some (Some [''c.py'']), sc_env = None\<rparr>)]"

definition three_manager :: MCPServerManager where
  "three_manager = \<lparr>mcp_servers = three_servers, initialized_servers = []\<rparr>"

definition probe_B_fails :: probe where
  "probe_B_fails server_name command e =
     (if server_name = ''B'' then Inl ConnectionFailure
      else if server_name = ''A'' then Inr [''a1'', ''a2'']
      else Inr [''c1''])"

definition faulty_manager :: MCPServerManager where
  "faulty_manager =
     \<lparr>mcp_servers = three_servers @
        [(''D'', \<lparr>sc_type = Some ''stdio'', sc_command = Some None,
            sc_args = None, sc_env = None\<rparr>),
         (''E'', \<lparr>sc_type = Some ''sse'', sc_command = Some (Some ''e''),
            sc_args = None, sc_env = None\<rparr>)],
      initialized_servers = []\<rparr>"

text \<open>
  A manager with a provider \<^verbatim>\<open>F\<close> that has neither command nor arguments and a provider
  \<^verbatim>\<open>G\<close> whose \<^verbatim>\<open>env\<close> value is empty.
\<close>

definition bare_manager :: MCPServerManager where
  "bare_manager =
     \<lparr>mcp_servers =
        [(''F'', \<lparr>sc_type = Some ''stdio'', sc_command = None, sc_args = None, sc_env = None\<rparr>),
         (''G'', \<lparr>sc_type = Some ''stdio'', sc_command = Some (Some ''g''), sc_args = None,
            sc_env = Some None\<rparr>)],
      initialized_servers = []\<rparr>"

section \<open>Properties of the registry\<close>

lemmas registry_defs =
  init_registry_def register_local_tool_def register_mcp_tool_def register_mcp_server_tools_def
  full_name_def name_or_server_def mcp_metadata_def config_or_empty_def empty_config_def
  config_truthy_def get_command_def get_env_def env_or_none_def
  scan_step_def scan_server_def get_mcp_runtime_def get_tool_runtime_def serves_def
  first_config_def dict_update_def combine_step_def collect_servers_def extend_tools_def
  combined_handle_def get_combined_mcp_runtime_def get_tools_for_agent_def clear_mcp_cache_def
  startswith_def endswith_def agno_def has_word_def shell_blank_def

lemmas demo_defs = demo_registry_def demo_config_def demo_registry2_def github_config_def
  nocmd_registry_def nocmd_config_def Let_def

lemmas loader_defs = parse_mcp_config_def parse_step_def empty_result_def build_command_def
  read_server_name_def read_tools_def bracketed_def resolved_env_def
  resolve_env_vars_def resolve_env_def index_def slice_def strip_def is_space_def
  startswith_def endswith_def dict_update_def no_env_def demo_servers_def Let_def

lemma agent_loop_resolve_each:
  "agent_loop lib refs (r, tls, ms) =
     (case resolve_each lib r (filter (\<lambda>ref. \<not> startswith ref ''mcp:'') refs) of
        (r', Inl e) \<Rightarrow> (r', Inl e)
      | (r', Inr ts) \<Rightarrow> (r', Inr (tls @ ts, ms @ filter (\<lambda>ref. startswith ref ''mcp:'') refs)))"
proof (induction refs arbitrary: r tls ms)
  case Nil
  then show ?case by simp
next
  case (Cons ref refs)
  show ?case
  proof (cases "startswith ref ''mcp:''")
    case True
    then show ?thesis
      by (simp add: Cons.IH split: prod.splits sum.splits)
  next
    case False
    obtain r' res where g: "get_tool_runtime lib r ref = (r', res)"
      by (cases "get_tool_runtime lib r ref")
    show ?thesis
    proof (cases res)
      case (Inl e)
      with False g show ?thesis by simp
    next
      case (Inr t)
      with False g show ?thesis
        by (cases t) (simp_all add: Cons.IH split: prod.splits sum.splits)
    qed
  qed
qed

lemma get_tools_for_agent_resolveMany:
  "get_tools_for_agent lib r refs = resolveMany lib r refs"
  by (simp add: get_tools_for_agent_def resolveMany_def agent_loop_resolve_each Let_def
      split: prod.splits sum.splits option.splits)

lemma call_factory_fresh:
  "call_factory r f = (r', t) \<Longrightarrow>
     (t = None \<and> r' = r) \<or>
     (\<exists>cls. t = Some (LocalTool (constructed r) cls) \<and>
        r' = r\<lparr>constructed := Suc (constructed r)\<rparr>)"
  by (cases f) auto

lemma get_tool_runtime_local:
  assumes "\<not> startswith ref ''mcp:''" and "get_tool_runtime lib r ref = (r', res)"
  shows "(res = Inr None \<and> r' = r) \<or>
     (\<exists>cls. res = Inr (Some (LocalTool (constructed r) cls)) \<and>
        r' = r\<lparr>constructed := Suc (constructed r)\<rparr>)"
proof (cases "map_of (tools r) ref")
  case None
  with assms show ?thesis by (simp add: get_tool_runtime_def)
next
  case (Some metadata)
  show ?thesis
  proof (cases "tm_type metadata = LOCAL \<and> tm_runtime_factory metadata \<noteq> None")
    case False
    with assms Some show ?thesis
      by (auto simp: get_tool_runtime_def split: option.splits if_splits)
  next
    case True
    then obtain f where f: "tm_runtime_factory metadata = Some f" by auto
    obtain r1 t where c: "call_factory r f = (r1, t)" by (cases "call_factory r f")
    from assms Some True f c have "r' = r1" "res = Inr t"
      by (auto simp: get_tool_runtime_def)
    with call_factory_fresh [OF c] show ?thesis by auto
  qed
qed

lemma resolve_each_local:
  assumes "\<forall>ref \<in> set refs. \<not> startswith ref ''mcp:''"
    and "resolve_each lib r refs = (r', res)"
  shows "constructed r \<le> constructed r' \<and>
         (\<exists>ts. res = Inr ts \<and> distinct (map runtime_id ts) \<and>
            (\<forall>t \<in> set ts. is_local_tool t \<and> constructed r \<le> runtime_id t \<and>
               runtime_id t < constructed r'))"
  using assms
proof (induction refs arbitrary: r r' res)
  case Nil
  then show ?case by auto
next
  case (Cons ref refs)
  obtain r1 res1 where g: "get_tool_runtime lib r ref = (r1, res1)"
    by (cases "get_tool_runtime lib r ref")
  obtain r2 res2 where e: "resolve_each lib r1 refs = (r2, res2)"
    by (cases "resolve_each lib r1 refs")
  from Cons.prems have nl: "\<not> startswith ref ''mcp:''"
    and rest: "\<forall>ref \<in> set refs. \<not> startswith ref ''mcp:''"
    by auto
  from Cons.IH [OF rest e] obtain ts2 where res2: "res2 = Inr ts2"
    and le: "constructed r1 \<le> constructed r2"
    and d2: "distinct (map runtime_id ts2)"
    and l2: "\<forall>t \<in> set ts2. is_local_tool t \<and> constructed r1 \<le> runtime_id t \<and>
               runtime_id t < constructed r2"
    by blast
  from get_tool_runtime_local [OF nl g] show ?case
  proof
    assume a: "res1 = Inr None \<and> r1 = r"
    with Cons.prems(2) g e res2 have "r' = r2" "res = Inr ts2" by auto
    with a le d2 l2 show ?thesis by simp
  next
    assume "\<exists>cls. res1 = Inr (Some (LocalTool (constructed r) cls)) \<and>
        r1 = r\<lparr>constructed := Suc (constructed r)\<rparr>"
    then obtain cls where res1: "res1 = Inr (Some (LocalTool (constructed r) cls))"
      and r1: "constructed r1 = Suc (constructed r)" by auto
    with Cons.prems(2) g e res2 have "r' = r2" "res = Inr (LocalTool (constructed r) cls # ts2)"
      by auto
    with r1 le d2 l2 show ?thesis by fastforce
  qed
qed

lemma combined_handle_fresh:
  "combined_handle lib r servers all_env = (r', res) \<Longrightarrow>
     (r' = r \<and> (res = Inr None \<or> res = Inl ValueError)) \<or>
     (\<exists>v. res = Inr (Some v) \<and> \<not> is_local_tool v \<and> runtime_id v = constructed r \<and>
          r' = r\<lparr>constructed := Suc (constructed r)\<rparr>)"
  by (auto simp: combined_handle_def Let_def split: list.splits prod.splits if_splits)

lemma get_combined_mcp_runtime_fresh:
  "get_combined_mcp_runtime lib r refs = (r', res) \<Longrightarrow>
     (r' = r \<and> (res = Inr None \<or> (\<exists>e. res = Inl e))) \<or>
     (\<exists>v. res = Inr (Some v) \<and> \<not> is_local_tool v \<and> runtime_id v = constructed r \<and>
          r' = r\<lparr>constructed := Suc (constructed r)\<rparr>)"
  using combined_handle_fresh [of lib r _ _ r' res]
  by (auto simp: get_combined_mcp_runtime_def split: sum.splits prod.splits)

text \<open>
  C1. For every ordered list of references, \<^verbatim>\<open>get_tools_for_agent\<close> resolves each local
  reference on its own, in input order, and resolves all \<^verbatim>\<open>mcp:\<close> references by one
  combination request whose handle is appended once at the end. The objects of a returned
  list are pairwise different instances, and at most one of them is not a local tool. The
  call raises only when there are \<^verbatim>\<open>mcp:\<close> references and their combination request
  raises; resolving the local references never does.
\<close>

theorem get_tools_for_agent_groups_remote:
  "get_tools_for_agent lib r refs = resolveMany lib r refs \<and>
   (\<forall>tls. snd (get_tools_for_agent lib r refs) = Inr tls \<longrightarrow>
      distinct (map runtime_id tls) \<and>
      length (filter (\<lambda>t. \<not> is_local_tool t) tls) \<le> 1) \<and>
   (\<forall>e. snd (get_tools_for_agent lib r refs) = Inl e \<longrightarrow>
      filter (\<lambda>ref. startswith ref ''mcp:'') refs \<noteq> [] \<and>
      snd (get_combined_mcp_runtime lib
             (fst (resolve_each lib r (filter (\<lambda>ref. \<not> startswith ref ''mcp:'') refs)))
             (filter (\<lambda>ref. startswith ref ''mcp:'') refs)) = Inl e)"
proof (intro conjI allI impI)
  show eq: "get_tools_for_agent lib r refs = resolveMany lib r refs"
    by (rule get_tools_for_agent_resolveMany)
  {
    fix e assume "snd (get_tools_for_agent lib r refs) = Inl e"
    with eq have err: "snd (resolveMany lib r refs) = Inl e" by simp
    let ?locals = "filter (\<lambda>ref. \<not> startswith ref ''mcp:'') refs"
    let ?remotes = "filter (\<lambda>ref. startswith ref ''mcp:'') refs"
    obtain r1 res1 where e1: "resolve_each lib r ?locals = (r1, res1)"
      by (cases "resolve_each lib r ?locals")
    have "\<forall>ref \<in> set ?locals. \<not> startswith ref ''mcp:''" by simp
    from resolve_each_local [OF this e1] obtain ts where res1: "res1 = Inr ts"
      by auto
    from err e1 res1 show "?remotes \<noteq> []"
      by (auto simp: resolveMany_def Let_def split: if_splits)
    from err e1 res1
    show "snd (get_combined_mcp_runtime lib (fst (resolve_each lib r ?locals)) ?remotes) = Inl e"
      by (auto simp: resolveMany_def Let_def split: if_splits prod.splits sum.splits)
  }
  fix tls assume "snd (get_tools_for_agent lib r refs) = Inr tls"
  with eq have res: "snd (resolveMany lib r refs) = Inr tls" by simp
  let ?locals = "filter (\<lambda>ref. \<not> startswith ref ''mcp:'') refs"
  let ?remotes = "filter (\<lambda>ref. startswith ref ''mcp:'') refs"
  obtain r1 res1 where e: "resolve_each lib r ?locals = (r1, res1)"
    by (cases "resolve_each lib r ?locals")
  have "\<forall>ref \<in> set ?locals. \<not> startswith ref ''mcp:''" by simp
  from resolve_each_local [OF this e] obtain ts where res1: "res1 = Inr ts"
    and d: "distinct (map runtime_id ts)"
    and l: "\<forall>t \<in> set ts. is_local_tool t \<and> runtime_id t < constructed r1"
    by auto
  from l have f: "filter (\<lambda>t. \<not> is_local_tool t) ts = []"
    by (simp add: filter_empty_conv)
  obtain r2 h where c: "get_combined_mcp_runtime lib r1 ?remotes = (r2, h)"
    by (cases "get_combined_mcp_runtime lib r1 ?remotes")
  have shape: "tls = ts \<or> (\<exists>v. h = Inr (Some v) \<and> tls = ts @ [v])"
    using res e res1 c
    by (auto simp: resolveMany_def Let_def split: if_splits sum.splits option.splits)
  from shape show "distinct (map runtime_id tls)"
  proof
    assume "tls = ts" with d show ?thesis by simp
  next
    assume "\<exists>v. h = Inr (Some v) \<and> tls = ts @ [v]"
    then obtain v where h: "h = Inr (Some v)" and tls: "tls = ts @ [v]" by blast
    from get_combined_mcp_runtime_fresh [OF c] h have "runtime_id v = constructed r1" by auto
    with d l tls show ?thesis by auto
  qed
  from shape f show "length (filter (\<lambda>t. \<not> is_local_tool t) tls) \<le> 1"
    by auto
qed

theorem get_tools_for_agent_groups_remote_witness:
  "snd (resolveMany agno demo_registry demo_refs) =
     Inr [LocalTool 0 ''DuckDuckGoTools'', LocalTool 1 ''DuckDuckGoTools'',
      MCPTools 2 (Some ''python custom_tools_server.py'') None (Some [''generate_id''])]"
proof -
  have "snd (get_tools_for_agent agno demo_registry demo_refs) =
     Inr [LocalTool 0 ''DuckDuckGoTools'', LocalTool 1 ''DuckDuckGoTools'',
      MCPTools 2 (Some ''python custom_tools_server.py'') None (Some [''generate_id''])]"
    by (simp add: demo_refs_def demo_defs registry_defs)
  with get_tools_for_agent_groups_remote [of agno demo_registry demo_refs] show ?thesis
    by simp
qed

lemma demo_tools: "tools demo_registry =
  [(''DuckDuckGoTools'', \<lparr>tm_name = ''DuckDuckGoTools'', tm_type = LOCAL, tm_server = None,
      tm_runtime_factory = Some (Makes ''DuckDuckGoTools''),
      tm_config = \<lparr>cfg_command = None, cfg_env = None,
        cfg_other = [(''description'', ''Web search'')]\<rparr>\<rparr>),
   (''mcp:custom_tools:generate_id'',
      mcp_metadata (Some ''generate_id'') ''custom_tools'' (Some demo_config)),
   (''mcp:custom_tools:get_timestamp'',
      mcp_metadata (Some ''get_timestamp'') ''custom_tools'' (Some demo_config)),
   (''mcp:custom_tools'', mcp_metadata None ''custom_tools'' (Some demo_config))]"
  by (simp add: demo_registry_def init_registry_def register_local_tool_def
      register_mcp_tool_def register_mcp_server_tools_def full_name_def config_or_empty_def)

subsection \<open>Single-provider resolution and its cache\<close>

lemma fold_scan_step_config:
  "snd (fold (scan_step server) items acc) =
     (case filter (serves server) items of
        [] \<Rightarrow> snd acc
      | item # rest \<Rightarrow> Some (tm_config (snd (last (item # rest)))))"
proof (induction items arbitrary: acc)
  case Nil
  then show ?case by simp
next
  case (Cons item items)
  show ?case
  proof (cases "serves server item")
    case True
    then have "snd (scan_step server item acc) = Some (tm_config (snd item))"
      by (simp add: scan_step_def serves_def Let_def)
    with True show ?thesis
      by (simp add: Cons.IH split: list.splits)
  next
    case False
    then have "snd (scan_step server item acc) = snd acc"
      by (auto simp: scan_step_def serves_def Let_def)
    with False show ?thesis
      by (simp add: Cons.IH split: list.splits)
  qed
qed

lemma scan_server_config:
  "snd (scan_server items server) =
     (case filter (serves server) items of
        [] \<Rightarrow> None
      | item # rest \<Rightarrow> Some (tm_config (snd (last (item # rest)))))"
  by (simp add: scan_server_def fold_scan_step_config split: list.splits)

lemma scan_server_None_iff:
  "(snd (scan_server items server) = None) = (first_config items server = None)"
  by (simp add: scan_server_config first_config_def split: list.splits)

lemma get_mcp_runtime_hit:
  "mcp_runtime_cache r ref = Some h \<Longrightarrow> get_mcp_runtime lib r ref = (r, Inr (Some h))"
  by (simp add: get_mcp_runtime_def)

lemma get_mcp_runtime_miss:
  assumes "mcp_runtime_cache r ref = None"
  shows "get_mcp_runtime lib r ref =
     (if 2 \<le> length (split CHR '':'' ref) then
        (case snd (scan_server (tools r) (split CHR '':'' ref ! 1)) of
           None \<Rightarrow> (r, Inr None)
         | Some server_config \<Rightarrow>
             if mcp_accepts lib (get_command server_config) then
               (r\<lparr>mcp_runtime_cache := (mcp_runtime_cache r)(ref \<mapsto>
                     MCPTools (constructed r) (get_command server_config)
                       (env_or_none (get_env server_config))
                       (if 2 < length (split CHR '':'' ref)
                        then Some (drop 2 (split CHR '':'' ref)) else None)),
                  constructed := Suc (constructed r)\<rparr>,
                Inr (Some (MCPTools (constructed r) (get_command server_config)
                       (env_or_none (get_env server_config))
                       (if 2 < length (split CHR '':'' ref)
                        then Some (drop 2 (split CHR '':'' ref)) else None))))
             else (r, Inl ValueError))
      else (r, Inr None))"
  using assms by (auto simp: get_mcp_runtime_def Let_def split: option.splits)

text \<open>
  C3, as the code has it. The cache key of a single-provider resolution is the reference
  string as it is written. A hit returns the cached handle and changes nothing. A miss has
  three outcomes. It returns \<^verbatim>\<open>None\<close> and changes nothing when the reference has no
  provider part or the catalog has no entry with a configuration for the provider. It
  raises \<^verbatim>\<open>ValueError\<close> and changes nothing, so that nothing is cached, when the library
  does not accept the command of the configuration found. Otherwise it constructs a new
  \<^verbatim>\<open>MCPTools\<close> handle from that configuration and the capability names of the
  reference, stores it under the reference string and returns it; the next resolution of
  the same string returns the same handle and changes nothing.
\<close>

theorem get_mcp_runtime_key_is_reference:
  "(\<forall>h. mcp_runtime_cache r ref = Some h \<longrightarrow> get_mcp_runtime lib r ref = (r, Inr (Some h))) \<and>
   (mcp_runtime_cache r ref = None \<longrightarrow>
      (case get_mcp_runtime lib r ref of
         (r', Inl e) \<Rightarrow>
           r' = r \<and> e = ValueError \<and> 2 \<le> length (split CHR '':'' ref) \<and>
           (\<exists>server_config.
              snd (scan_server (tools r) (split CHR '':'' ref ! 1)) = Some server_config \<and>
              \<not> mcp_accepts lib (get_command server_config))
       | (r', Inr None) \<Rightarrow>
           r' = r \<and>
           \<not> (2 \<le> length (split CHR '':'' ref) \<and>
              first_config (tools r) (split CHR '':'' ref ! 1) \<noteq> None)
       | (r', Inr (Some h)) \<Rightarrow>
           2 \<le> length (split CHR '':'' ref) \<and>
           (\<exists>server_config.
              snd (scan_server (tools r) (split CHR '':'' ref ! 1)) = Some server_config \<and>
              mcp_accepts lib (get_command server_config) \<and>
              h = MCPTools (constructed r) (get_command server_config)
                    (env_or_none (get_env server_config))
                    (if 2 < length (split CHR '':'' ref)
                     then Some (drop 2 (split CHR '':'' ref)) else None)) \<and>
           r' = r\<lparr>mcp_runtime_cache := (mcp_runtime_cache r)(ref \<mapsto> h),
                  constructed := Suc (constructed r)\<rparr> \<and>
           get_mcp_runtime lib r' ref = (r', Inr (Some h))))"
proof (intro conjI allI impI)
  fix h assume "mcp_runtime_cache r ref = Some h"
  then show "get_mcp_runtime lib r ref = (r, Inr (Some h))" by (rule get_mcp_runtime_hit)
next
  assume miss: "mcp_runtime_cache r ref = None"
  let ?parts = "split CHR '':'' ref"
  let ?goal = "case get_mcp_runtime lib r ref of
         (r', Inl e) \<Rightarrow>
           r' = r \<and> e = ValueError \<and> 2 \<le> length ?parts \<and>
           (\<exists>server_config.
              snd (scan_server (tools r) (?parts ! 1)) = Some server_config \<and>
              \<not> mcp_accepts lib (get_command server_config))
       | (r', Inr None) \<Rightarrow>
           r' = r \<and>
           \<not> (2 \<le> length ?parts \<and> first_config (tools r) (?parts ! 1) \<noteq> None)
       | (r', Inr (Some h)) \<Rightarrow>
           2 \<le> length ?parts \<and>
           (\<exists>server_config.
              snd (scan_server (tools r) (?parts ! 1)) = Some server_config \<and>
              mcp_accepts lib (get_command server_config) \<and>
              h = MCPTools (constructed r) (get_command server_config)
                    (env_or_none (get_env server_config))
                    (if 2 < length ?parts then Some (drop 2 ?parts) else None)) \<and>
           r' = r\<lparr>mcp_runtime_cache := (mcp_runtime_cache r)(ref \<mapsto> h),
                  constructed := Suc (constructed r)\<rparr> \<and>
           get_mcp_runtime lib r' ref = (r', Inr (Some h))"
  show ?goal
  proof (cases "2 \<le> length ?parts")
    case False
    with get_mcp_runtime_miss [OF miss, of lib] show ?thesis by simp
  next
    case long: True
    show ?thesis
    proof (cases "snd (scan_server (tools r) (?parts ! 1))")
      case None
      with long get_mcp_runtime_miss [OF miss, of lib] scan_server_None_iff [of "tools r" "?parts ! 1"]
      show ?thesis by simp
    next
      case (Some c)
      show ?thesis
      proof (cases "mcp_accepts lib (get_command c)")
        case False
        with long Some get_mcp_runtime_miss [OF miss, of lib] show ?thesis by simp
      next
        case True
        with long Some get_mcp_runtime_miss [OF miss, of lib] show ?thesis
          by (simp add: get_mcp_runtime_hit)
      qed
    qed
  qed
qed

theorem get_mcp_runtime_key_is_reference_witness:
  "get_mcp_runtime agno (fst (get_mcp_runtime agno demo_registry ''mcp:custom_tools:generate_id''))
       ''mcp:custom_tools:generate_id'' =
     (fst (get_mcp_runtime agno demo_registry ''mcp:custom_tools:generate_id''),
      Inr (Some (MCPTools 0 (Some ''python custom_tools_server.py'') None
                   (Some [''generate_id'']))))"
proof -
  let ?ref = "''mcp:custom_tools:generate_id''"
  let ?h = "MCPTools 0 (Some ''python custom_tools_server.py'') None (Some [''generate_id''])"
  define r1 where "r1 = fst (get_mcp_runtime agno demo_registry ?ref)"
  have s: "snd (get_mcp_runtime agno demo_registry ?ref) = Inr (Some ?h)"
    by (simp add: demo_defs registry_defs)
  have res: "get_mcp_runtime agno demo_registry ?ref = (r1, Inr (Some ?h))"
    using s by (simp add: r1_def prod_eq_iff)
  have miss: "mcp_runtime_cache demo_registry ?ref = None"
    by (simp add: demo_defs registry_defs)
  note k = get_mcp_runtime_key_is_reference [of demo_registry ?ref agno, THEN conjunct2,
      rule_format, OF miss, unfolded res prod.case sum.case option.case]
  from k have "get_mcp_runtime agno r1 ?ref = (r1, Inr (Some ?h))"
    by blast
  then show ?thesis by (simp add: r1_def)
qed

text \<open>
  The claim C3 as stated fails: two references that name the same provider and the same
  capability set in a different order are two keys and get two handles, in the colon
  notation of the registry and with a comma-separated list alike.
\<close>

theorem cache_key_depends_on_order:
  "snd (get_tool_runtime agno demo_registry ''mcp:custom_tools:generate_id:get_timestamp'') =
     Inr (Some (MCPTools 0 (Some ''python custom_tools_server.py'') None
             (Some [''generate_id'', ''get_timestamp'']))) \<and>
   snd (get_tool_runtime agno
          (fst (get_tool_runtime agno demo_registry
                  ''mcp:custom_tools:generate_id:get_timestamp''))
          ''mcp:custom_tools:get_timestamp:generate_id'') =
     Inr (Some (MCPTools 1 (Some ''python custom_tools_server.py'') None
             (Some [''get_timestamp'', ''generate_id'']))) \<and>
   set [''generate_id'', ''get_timestamp''] = set [''get_timestamp'', ''generate_id''] \<and>
   snd (get_tool_runtime agno demo_registry ''mcp:custom_tools:generate_id,get_timestamp'') =
     Inr (Some (MCPTools 0 (Some ''python custom_tools_server.py'') None
             (Some [''generate_id,get_timestamp'']))) \<and>
   snd (get_tool_runtime agno
          (fst (get_tool_runtime agno demo_registry
                  ''mcp:custom_tools:generate_id,get_timestamp''))
          ''mcp:custom_tools:get_timestamp,generate_id'') =
     Inr (Some (MCPTools 1 (Some ''python custom_tools_server.py'') None
             (Some [''get_timestamp,generate_id''])))"
  by (simp add: demo_defs registry_defs insert_commute)

text \<open>
  A provider that is registered without a command: its resolution raises and caches
  nothing.
\<close>

lemma rejected_command_not_cached:
  "get_tool_runtime agno nocmd_registry ''mcp:nocmd'' = (nocmd_registry, Inl ValueError) \<and>
   get_combined_mcp_runtime agno nocmd_registry [''mcp:nocmd''] =
     (nocmd_registry, Inl ValueError)"
  by (simp add: demo_defs registry_defs)

subsection \<open>Clearing the cache\<close>

lemma tools_get_mcp_runtime: "tools (fst (get_mcp_runtime lib r ref)) = tools r"
  by (cases "mcp_runtime_cache r ref")
     (simp_all add: get_mcp_runtime_hit get_mcp_runtime_miss split: option.splits)

lemma tools_call_factory: "tools (fst (call_factory r f)) = tools r"
  by (cases f) simp_all

lemma tools_get_tool_runtime: "tools (fst (get_tool_runtime lib r ref)) = tools r"
  by (simp add: get_tool_runtime_def tools_get_mcp_runtime tools_call_factory
      split: option.splits)

lemma get_tool_runtime_served:
  assumes "served lib (tools r) ref" and "mcp_runtime_cache r ref = None"
  shows "\<exists>server_config.
     snd (scan_server (tools r) (split CHR '':'' ref ! 1)) = Some server_config \<and>
     get_tool_runtime lib r ref =
       (r\<lparr>mcp_runtime_cache := (mcp_runtime_cache r)(ref \<mapsto>
             MCPTools (constructed r) (get_command server_config)
               (env_or_none (get_env server_config))
               (if 2 < length (split CHR '':'' ref)
                then Some (drop 2 (split CHR '':'' ref)) else None)),
          constructed := Suc (constructed r)\<rparr>,
        Inr (Some (MCPTools (constructed r) (get_command server_config)
               (env_or_none (get_env server_config))
               (if 2 < length (split CHR '':'' ref)
                then Some (drop 2 (split CHR '':'' ref)) else None))))"
proof -
  from assms(1) obtain c where c: "snd (scan_server (tools r) (split CHR '':'' ref ! 1)) = Some c"
    and acc: "mcp_accepts lib (get_command c)" and long: "2 \<le> length (split CHR '':'' ref)"
    and pre: "startswith ref ''mcp:''" and nl: "\<not> local_key (tools r) ref"
    by (auto simp: served_def split: option.splits)
  from pre nl have "get_tool_runtime lib r ref = get_mcp_runtime lib r ref"
    by (auto simp: get_tool_runtime_def local_key_def split: option.splits)
  with c acc long get_mcp_runtime_miss [OF assms(2), of lib] show ?thesis
    by simp
qed

lemma get_tool_runtime_new_handle:
  assumes miss: "mcp_runtime_cache r ref = None"
    and res: "get_tool_runtime lib r ref = (r', Inr (Some h))"
  shows "runtime_id h = constructed r \<and> constructed r' = Suc (constructed r) \<and>
         (is_local_tool h \<or> mcp_runtime_cache r' ref = Some h)"
proof (cases "local_key (tools r) ref")
  case True
  then obtain metadata where m: "map_of (tools r) ref = Some metadata" "tm_type metadata = LOCAL"
    by (auto simp: local_key_def split: option.splits)
  with res obtain f where f: "tm_runtime_factory metadata = Some f"
    and c: "call_factory r f = (r', Some h)"
    by (auto simp: get_tool_runtime_def prod_eq_iff split: option.splits)
  from call_factory_fresh [OF c] show ?thesis by auto
next
  case False
  with res have g: "get_mcp_runtime lib r ref = (r', Inr (Some h))"
    by (auto simp: get_tool_runtime_def local_key_def split: option.splits if_splits)
  with get_mcp_runtime_miss [OF miss, of lib] show ?thesis
    by (auto split: if_splits option.splits)
qed

lemma get_tool_runtime_caching_served:
  assumes res: "get_tool_runtime lib r0 ref = (r, Inr (Some h0))"
    and miss: "mcp_runtime_cache r0 ref = None"
    and cached: "mcp_runtime_cache r ref = Some h0"
  shows "served lib (tools r) ref \<and> tools r = tools r0 \<and>
     (\<forall>server_config. snd (scan_server (tools r) (split CHR '':'' ref ! 1)) = Some server_config \<longrightarrow>
        h0 = MCPTools (constructed r0) (get_command server_config)
               (env_or_none (get_env server_config))
               (if 2 < length (split CHR '':'' ref)
                then Some (drop 2 (split CHR '':'' ref)) else None))"
proof -
  have t: "tools r = tools r0"
    using tools_get_tool_runtime [of lib r0 ref] res by simp
  have nl: "\<not> local_key (tools r0) ref"
  proof
    assume "local_key (tools r0) ref"
    then obtain metadata where m: "map_of (tools r0) ref = Some metadata" "tm_type metadata = LOCAL"
      by (auto simp: local_key_def split: option.splits)
    with res obtain f where "call_factory r0 f = (r, Some h0)"
      by (auto simp: get_tool_runtime_def prod_eq_iff split: option.splits)
    from call_factory_fresh [OF this] have "mcp_runtime_cache r = mcp_runtime_cache r0"
      by auto
    with miss cached show False by simp
  qed
  with res have pre: "startswith ref ''mcp:''"
    and g: "get_mcp_runtime lib r0 ref = (r, Inr (Some h0))"
    by (auto simp: get_tool_runtime_def local_key_def split: option.splits if_splits)
  from g get_mcp_runtime_miss [OF miss, of lib]
  have long: "2 \<le> length (split CHR '':'' ref)"
    and c: "\<exists>c. snd (scan_server (tools r0) (split CHR '':'' ref ! 1)) = Some c \<and>
          mcp_accepts lib (get_command c) \<and>
          h0 = MCPTools (constructed r0) (get_command c) (env_or_none (get_env c))
               (if 2 < length (split CHR '':'' ref)
                then Some (drop 2 (split CHR '':'' ref)) else None)"
    by (auto split: if_splits option.splits)
  from pre nl long c t show ?thesis
    by (auto simp: served_def)
qed

text \<open>
  The identities of the cached handles are below the counter in the empty registry, and
  every operation of the registry keeps them so.
\<close>

lemma identities_below_init: "identities_below init_registry"
  by (simp add: identities_below_def init_registry_def)

lemma identities_below_frame:
  "mcp_runtime_cache r' = mcp_runtime_cache r \<Longrightarrow> constructed r \<le> constructed r' \<Longrightarrow>
   identities_below r \<Longrightarrow> identities_below r'"
  by (fastforce simp: identities_below_def)

lemma identities_below_clear_mcp_cache: "identities_below (clear_mcp_cache r)"
  by (simp add: identities_below_def clear_mcp_cache_def)

lemma identities_below_get_mcp_runtime:
  assumes "identities_below r"
  shows "identities_below (fst (get_mcp_runtime lib r ref))"
proof (cases "mcp_runtime_cache r ref")
  case (Some h)
  with assms show ?thesis by (simp add: get_mcp_runtime_hit)
next
  case None
  have "identities_below (r\<lparr>mcp_runtime_cache := (mcp_runtime_cache r)(ref \<mapsto> h),
          constructed := Suc (constructed r)\<rparr>)" if "runtime_id h = constructed r" for h
    using assms that None
    by (auto simp: identities_below_def ran_def split: if_splits)
  with assms get_mcp_runtime_miss [OF None, of lib] show ?thesis
    by (auto split: option.splits)
qed

lemma identities_below_get_tool_runtime:
  assumes "identities_below r"
  shows "identities_below (fst (get_tool_runtime lib r ref))"
proof -
  have "identities_below (fst (call_factory r f))" for f
    using assms by (cases f) (auto intro: identities_below_frame [of _ r])
  with assms identities_below_get_mcp_runtime [OF assms, of lib ref] show ?thesis
    by (simp add: get_tool_runtime_def split: option.splits)
qed

lemma identities_below_get_combined_mcp_runtime:
  assumes "identities_below r"
  shows "identities_below (fst (get_combined_mcp_runtime lib r refs))"
proof -
  obtain r' res where c: "get_combined_mcp_runtime lib r refs = (r', res)"
    by (cases "get_combined_mcp_runtime lib r refs")
  from get_combined_mcp_runtime_fresh [OF c] assms have "identities_below r'"
    by (auto intro: identities_below_frame [of _ r])
  with c show ?thesis by simp
qed

lemma identities_below_register_local_tool:
  "identities_below r \<Longrightarrow> identities_below (register_local_tool r name f c)"
  by (rule identities_below_frame [of _ r]) (simp_all add: register_local_tool_def)

lemma identities_below_register_mcp_tool:
  "identities_below r \<Longrightarrow> identities_below (register_mcp_tool r n server c)"
  by (rule identities_below_frame [of _ r]) (simp_all add: register_mcp_tool_def)

lemma identities_below_register_mcp_server_tools:
  assumes "identities_below r"
  shows "identities_below (register_mcp_server_tools r server ts config)"
proof -
  have "identities_below (fold (\<lambda>tool r'. register_mcp_tool r' (Some tool) server c) ts r)" for c
    using assms
    by (induction ts arbitrary: r) (simp_all add: identities_below_register_mcp_tool)
  then show ?thesis
    by (simp add: register_mcp_server_tools_def identities_below_register_mcp_tool)
qed

lemma identities_below_resolve_each:
  "identities_below r \<Longrightarrow> identities_below (fst (resolve_each lib r refs))"
proof (induction refs arbitrary: r)
  case Nil
  then show ?case by simp
next
  case (Cons ref refs)
  obtain r1 t where g: "get_tool_runtime lib r ref = (r1, t)"
    by (cases "get_tool_runtime lib r ref")
  from identities_below_get_tool_runtime [OF Cons.prems, of lib ref] g
  have b1: "identities_below r1"
    by simp
  show ?case
  proof (cases t)
    case (Inl e)
    with g b1 show ?thesis by simp
  next
    case (Inr v)
    obtain r2 ts where e: "resolve_each lib r1 refs = (r2, ts)"
      by (cases "resolve_each lib r1 refs")
    from Cons.IH [OF b1] e have "identities_below r2" by simp
    with g e Inr show ?thesis by (cases ts) simp_all
  qed
qed

lemma identities_below_get_tools_for_agent:
  assumes inv: "identities_below r"
  shows "identities_below (fst (get_tools_for_agent lib r refs))"
proof -
  let ?locals = "filter (\<lambda>ref. \<not> startswith ref ''mcp:'') refs"
  let ?remotes = "filter (\<lambda>ref. startswith ref ''mcp:'') refs"
  obtain r1 ts where e: "resolve_each lib r ?locals = (r1, ts)"
    by (cases "resolve_each lib r ?locals")
  obtain r2 h where c: "get_combined_mcp_runtime lib r1 ?remotes = (r2, h)"
    by (cases "get_combined_mcp_runtime lib r1 ?remotes")
  from identities_below_resolve_each [OF inv, of lib ?locals] e have a: "identities_below r1"
    by simp
  from identities_below_get_combined_mcp_runtime [OF a, of lib ?remotes] c
  have b: "identities_below r2"
    by simp
  have "fst (resolveMany lib r refs) = r1 \<or> fst (resolveMany lib r refs) = r2"
    using e c by (cases ts; cases h) (simp_all add: resolveMany_def Let_def)
  with a b show ?thesis
    by (auto simp: get_tools_for_agent_resolveMany)
qed

text \<open>
  C9. In every registry, \<^verbatim>\<open>clear_mcp_cache\<close> empties the cache and leaves the catalog
  (and the count of constructed objects) unchanged. Every handle that a resolve returns
  after the clear, for any reference, is newly constructed: its identity is the value of
  the counter, which the call advances, so it is none of the handles that were cached
  before the clear. When the catalog serves the reference, the resolve after the clear
  does return such a handle and caches it, the only entry of the cache. In particular,
  for a key that a resolve had constructed and cached, the resolve after the clear returns
  a handle with the same contents and another identity.
\<close>

theorem clear_mcp_cache_then_fresh:
  "tools (clear_mcp_cache r) = tools r \<and>
   mcp_runtime_cache (clear_mcp_cache r) = Map.empty \<and>
   constructed (clear_mcp_cache r) = constructed r \<and>
   (\<forall>h. snd (get_tool_runtime lib (clear_mcp_cache r) ref) = Inr (Some h) \<longrightarrow>
      runtime_id h = constructed r \<and>
      constructed (fst (get_tool_runtime lib (clear_mcp_cache r) ref)) = Suc (constructed r) \<and>
      (identities_below r \<longrightarrow> h \<notin> ran (mcp_runtime_cache r))) \<and>
   (served lib (tools r) ref \<longrightarrow>
      (\<exists>h. get_tool_runtime lib (clear_mcp_cache r) ref =
             (r\<lparr>mcp_runtime_cache := [ref \<mapsto> h], constructed := Suc (constructed r)\<rparr>,
              Inr (Some h)) \<and>
           runtime_id h = constructed r)) \<and>
   (\<forall>r0 h0. get_tool_runtime lib r0 ref = (r, Inr (Some h0)) \<and>
        mcp_runtime_cache r0 ref = None \<and> mcp_runtime_cache r ref = Some h0 \<longrightarrow>
      get_tool_runtime lib (clear_mcp_cache r) ref =
        (r\<lparr>mcp_runtime_cache := [ref \<mapsto> relabel (constructed r) h0],
            constructed := Suc (constructed r)\<rparr>,
         Inr (Some (relabel (constructed r) h0))) \<and>
      runtime_id (relabel (constructed r) h0) \<noteq> runtime_id h0)"
proof (intro conjI allI impI)
  let ?c = "clear_mcp_cache r"
  show "tools ?c = tools r" "mcp_runtime_cache ?c = Map.empty" "constructed ?c = constructed r"
    by (simp_all add: clear_mcp_cache_def)
  have miss: "mcp_runtime_cache ?c ref = None"
    by (simp add: clear_mcp_cache_def)
  have tc: "tools ?c = tools r" and cc: "constructed ?c = constructed r"
    by (simp_all add: clear_mcp_cache_def)
  {
    fix h assume h: "snd (get_tool_runtime lib ?c ref) = Inr (Some h)"
    then have "get_tool_runtime lib ?c ref = (fst (get_tool_runtime lib ?c ref), Inr (Some h))"
      by (simp add: prod_eq_iff)
    from get_tool_runtime_new_handle [OF miss this]
    show new: "runtime_id h = constructed r"
      and "constructed (fst (get_tool_runtime lib ?c ref)) = Suc (constructed r)"
      by (simp_all add: cc)
    assume "identities_below r"
    with new show "h \<notin> ran (mcp_runtime_cache r)"
      by (auto simp: identities_below_def)
  }
  {
    assume s: "served lib (tools r) ref"
    then have "served lib (tools ?c) ref" by (simp add: tc)
    from get_tool_runtime_served [OF this miss]
    show "\<exists>h. get_tool_runtime lib ?c ref =
             (r\<lparr>mcp_runtime_cache := [ref \<mapsto> h], constructed := Suc (constructed r)\<rparr>,
              Inr (Some h)) \<and> runtime_id h = constructed r"
      by (auto simp: clear_mcp_cache_def)
  }
  {
    fix r0 h0
    assume a: "get_tool_runtime lib r0 ref = (r, Inr (Some h0)) \<and>
        mcp_runtime_cache r0 ref = None \<and> mcp_runtime_cache r ref = Some h0"
    then have res: "get_tool_runtime lib r0 ref = (r, Inr (Some h0))"
      and m0: "mcp_runtime_cache r0 ref = None" and cached: "mcp_runtime_cache r ref = Some h0"
      by simp_all
    from get_tool_runtime_caching_served [OF res m0 cached]
    have s: "served lib (tools r) ref"
      and c: "\<And>server_config.
        snd (scan_server (tools r) (split CHR '':'' ref ! 1)) = Some server_config \<Longrightarrow>
        h0 = MCPTools (constructed r0) (get_command server_config)
               (env_or_none (get_env server_config))
               (if 2 < length (split CHR '':'' ref)
                then Some (drop 2 (split CHR '':'' ref)) else None)"
      by blast+
    from get_tool_runtime_new_handle [OF m0 res]
    have n0: "runtime_id h0 = constructed r0" "constructed r = Suc (constructed r0)"
      by simp_all
    from s have "served lib (tools ?c) ref" by (simp add: tc)
    from get_tool_runtime_served [OF this miss] obtain sc where
      sc: "snd (scan_server (tools r) (split CHR '':'' ref ! 1)) = Some sc"
      and g: "get_tool_runtime lib ?c ref =
       (?c\<lparr>mcp_runtime_cache := (mcp_runtime_cache ?c)(ref \<mapsto>
             MCPTools (constructed ?c) (get_command sc) (env_or_none (get_env sc))
               (if 2 < length (split CHR '':'' ref)
                then Some (drop 2 (split CHR '':'' ref)) else None)),
          constructed := Suc (constructed ?c)\<rparr>,
        Inr (Some (MCPTools (constructed ?c) (get_command sc) (env_or_none (get_env sc))
               (if 2 < length (split CHR '':'' ref)
                then Some (drop 2 (split CHR '':'' ref)) else None))))"
      by (auto simp: tc)
    from c [OF sc] have h0: "h0 = MCPTools (constructed r0) (get_command sc)
               (env_or_none (get_env sc))
               (if 2 < length (split CHR '':'' ref)
                then Some (drop 2 (split CHR '':'' ref)) else None)" .
    show "get_tool_runtime lib ?c ref =
        (r\<lparr>mcp_runtime_cache := [ref \<mapsto> relabel (constructed r) h0],
            constructed := Suc (constructed r)\<rparr>,
         Inr (Some (relabel (constructed r) h0)))"
      unfolding g by (simp add: clear_mcp_cache_def h0)
    show "runtime_id (relabel (constructed r) h0) \<noteq> runtime_id h0"
      using n0 by (simp add: h0)
  }
qed

theorem clear_mcp_cache_then_fresh_witness:
  "snd (get_tool_runtime agno
          (clear_mcp_cache
             (fst (get_tool_runtime agno
                     (fst (get_tool_runtime agno demo_registry ''mcp:custom_tools:generate_id''))
                     ''mcp:custom_tools:get_timestamp'')))
          ''mcp:custom_tools:generate_id'') =
     Inr (Some (MCPTools 2 (Some ''python custom_tools_server.py'') None
                  (Some [''generate_id''])))"
proof -
  let ?ref = "''mcp:custom_tools:generate_id''"
  define r2 where "r2 = fst (get_tool_runtime agno
      (fst (get_tool_runtime agno demo_registry ?ref)) ''mcp:custom_tools:get_timestamp'')"
  have t: "tools r2 = tools demo_registry"
    by (simp add: r2_def tools_get_tool_runtime)
  have n: "constructed r2 = 2"
    unfolding r2_def by (simp add: demo_defs registry_defs)
  have s: "served agno (tools r2) ?ref"
    unfolding t by (simp add: served_def local_key_def demo_defs registry_defs)
  from clear_mcp_cache_then_fresh [of r2 agno ?ref] s
  obtain h where g: "get_tool_runtime agno (clear_mcp_cache r2) ?ref =
        (r2\<lparr>mcp_runtime_cache := [?ref \<mapsto> h], constructed := Suc (constructed r2)\<rparr>,
         Inr (Some h))" and i: "runtime_id h = constructed r2"
    by blast
  have e: "snd (get_tool_runtime agno (clear_mcp_cache r2) ?ref) =
      Inr (Some (MCPTools (constructed r2) (Some ''python custom_tools_server.py'') None
                   (Some [''generate_id''])))"
    by (simp add: get_tool_runtime_def get_mcp_runtime_def clear_mcp_cache_def t
        demo_tools mcp_metadata_def name_or_server_def config_or_empty_def demo_config_def
        scan_server_def scan_step_def config_truthy_def get_command_def get_env_def
        env_or_none_def startswith_def agno_def has_word_def shell_blank_def Let_def)
  with g n show ?thesis by (simp add: r2_def)
qed

subsection \<open>Combination requests\<close>

lemma combine_step_map_of:
  assumes "combine_step items ref acc = Inr acc'"
  shows "map_of (fst acc') server =
     (case map_of (fst acc) server of
        Some v \<Rightarrow> Some v
      | None \<Rightarrow>
          if names_server server ref then
            (case first_config items server of
               None \<Rightarrow> None
             | Some config \<Rightarrow> Some (get_command config, requested_tools ref))
          else None)"
  using assms
  by (auto simp: combine_step_def names_server_def requested_tools_def Let_def map_add_def
      split: option.splits if_splits)

lemma collect_loop_map_of:
  assumes "collect_loop items refs acc = Inr acc'"
  shows "map_of (fst acc') server =
     (case map_of (fst acc) server of
        Some v \<Rightarrow> Some v
      | None \<Rightarrow>
          (case filter (names_server server) refs of
             [] \<Rightarrow> None
           | ref # _ \<Rightarrow>
               (case first_config items server of
                  None \<Rightarrow> None
                | Some config \<Rightarrow> Some (get_command config, requested_tools ref))))"
  using assms
proof (induction refs arbitrary: acc)
  case Nil
  then show ?case by (simp split: option.splits)
next
  case (Cons ref refs)
  from Cons.prems obtain acc1 where s: "combine_step items ref acc = Inr acc1"
    and l: "collect_loop items refs acc1 = Inr acc'"
    by (auto split: sum.splits)
  show ?case
    unfolding Cons.IH [OF l] combine_step_map_of [OF s]
    by (simp split: option.splits list.splits)
qed

text \<open>
  The entry of a collected provider is fixed by the first reference that names it: the
  command of the first catalog entry that serves it, and the filter of that reference.
\<close>

lemma collect_servers_first_reference_wins:
  assumes "collect_servers items refs = Inr (servers, all_env)"
  shows "map_of servers server =
     (case filter (names_server server) refs of
        [] \<Rightarrow> None
      | ref # _ \<Rightarrow>
          (case first_config items server of
             None \<Rightarrow> None
           | Some config \<Rightarrow> Some (get_command config, requested_tools ref)))"
  using collect_loop_map_of [of items refs "([], [])" "(servers, all_env)" server] assms
  by (simp add: collect_servers_def)

lemma combine_step_distinct:
  "combine_step items ref acc = Inr acc' \<Longrightarrow> distinct (map fst (fst acc)) \<Longrightarrow>
   distinct (map fst (fst acc'))"
  by (auto simp: combine_step_def Let_def map_of_eq_None_iff split: option.splits if_splits)

lemma collect_loop_distinct:
  "collect_loop items refs acc = Inr acc' \<Longrightarrow> distinct (map fst (fst acc)) \<Longrightarrow>
   distinct (map fst (fst acc'))"
proof (induction refs arbitrary: acc)
  case Nil
  then show ?case by simp
next
  case (Cons ref refs)
  from Cons.prems(1) obtain acc1 where s: "combine_step items ref acc = Inr acc1"
    and l: "collect_loop items refs acc1 = Inr acc'"
    by (auto split: sum.splits)
  show ?case
    by (rule Cons.IH [OF l combine_step_distinct [OF s Cons.prems(2)]])
qed

lemma collect_servers_resolves:
  assumes "collect_servers items refs = Inr (servers, all_env)"
  shows "distinct (map fst servers) \<and>
         (\<forall>server. (server \<in> fst ` set servers) = resolves items refs server)"
proof
  from assms collect_loop_distinct [of items refs "([], [])" "(servers, all_env)"]
  show "distinct (map fst servers)" by (simp add: collect_servers_def)
  show "\<forall>server. (server \<in> fst ` set servers) = resolves items refs server"
  proof
    fix server
    have "(server \<in> fst ` set servers) = (map_of servers server \<noteq> None)"
      by (simp add: map_of_eq_None_iff)
    also have "\<dots> = resolves items refs server"
      unfolding collect_servers_first_reference_wins [OF assms]
      by (simp add: resolves_def split: list.splits option.splits)
    finally show "(server \<in> fst ` set servers) = resolves items refs server" .
  qed
qed

lemma first_config_in_items:
  "first_config items server = Some config \<Longrightarrow> \<exists>item \<in> set items. tm_config (snd item) = config"
proof -
  assume a: "first_config items server = Some config"
  then obtain item rest where f: "filter (serves server) items = item # rest"
    and c: "tm_config (snd item) = config"
    by (auto simp: first_config_def split: list.splits)
  from f have "item \<in> set (filter (serves server) items)" by simp
  with c show ?thesis by auto
qed

lemma combine_step_typed:
  assumes "\<forall>item \<in> set items. cfg_env (tm_config (snd item)) \<noteq> Some None"
  shows "\<exists>acc'. combine_step items ref acc = Inr acc'"
proof (cases "2 \<le> length (split CHR '':'' ref)")
  case False
  then show ?thesis by (simp add: combine_step_def)
next
  case long: True
  show ?thesis
  proof (cases "first_config items (split CHR '':'' ref ! 1)")
    case None
    with long show ?thesis by (simp add: combine_step_def Let_def)
  next
    case (Some config)
    from first_config_in_items [OF Some] assms have "cfg_env config \<noteq> Some None" by auto
    then have "get_env config \<noteq> None"
      by (auto simp: get_env_def split: option.splits)
    with long Some show ?thesis
      by (auto simp: combine_step_def Let_def split: option.splits)
  qed
qed

lemma collect_loop_typed:
  assumes "\<forall>item \<in> set items. cfg_env (tm_config (snd item)) \<noteq> Some None"
  shows "\<exists>acc'. collect_loop items refs acc = Inr acc'"
proof (induction refs arbitrary: acc)
  case Nil
  then show ?case by simp
next
  case (Cons ref refs)
  from combine_step_typed [OF assms, of ref acc] obtain acc1
    where "combine_step items ref acc = Inr acc1" by blast
  with Cons.IH [of acc1] show ?case by simp
qed

lemma fold_extend_tools:
  "fold (\<lambda>kv acc. extend_tools acc (snd kv)) servers acc =
     acc @ concat (map (\<lambda>kv. case snd (snd kv) of None \<Rightarrow> [] | Some ts \<Rightarrow> ts) servers)"
  by (induction servers arbitrary: acc) (auto simp: extend_tools_def split: option.splits)

lemma combined_handle_several:
  assumes "2 \<le> length servers"
  shows "combined_handle lib r servers all_env =
     (if multi_accepts lib (map (\<lambda>kv. fst (snd kv)) servers) then
        (r\<lparr>constructed := Suc (constructed r)\<rparr>,
         Inr (Some (MultiMCPTools (constructed r) (map (\<lambda>kv. fst (snd kv)) servers)
                      (env_or_none (Some all_env)) (all_filters servers))))
      else (r, Inl ValueError))"
proof -
  from assms obtain a b rest where s: "servers = a # b # rest"
    by (cases servers; cases "tl servers") auto
  have f: "fold (\<lambda>kv acc. extend_tools acc (snd kv)) servers [] =
      concat (map (\<lambda>kv. case snd (snd kv) of None \<Rightarrow> [] | Some ts \<Rightarrow> ts) servers)"
    by (simp add: fold_extend_tools)
  show ?thesis
    unfolding combined_handle_def f
    by (simp add: s Let_def all_filters_def split: prod.splits)
qed

lemma get_combined_mcp_runtime_cache:
  "get_combined_mcp_runtime lib (r\<lparr>mcp_runtime_cache := c\<rparr>) refs =
     (fst (get_combined_mcp_runtime lib r refs)\<lparr>mcp_runtime_cache := c\<rparr>,
      snd (get_combined_mcp_runtime lib r refs))"
  by (simp add: get_combined_mcp_runtime_def combined_handle_def Let_def
      split: sum.splits list.splits prod.splits)

lemma get_combined_mcp_runtime_again:
  "get_combined_mcp_runtime lib (r\<lparr>constructed := n\<rparr>) refs =
     (fst (get_combined_mcp_runtime lib r refs)
        \<lparr>constructed := (case snd (get_combined_mcp_runtime lib r refs) of
                            Inr (Some h) \<Rightarrow> Suc n | _ \<Rightarrow> n)\<rparr>,
      map_sum id (map_option (relabel n)) (snd (get_combined_mcp_runtime lib r refs)))"
  by (simp add: get_combined_mcp_runtime_def combined_handle_def Let_def
      split: sum.splits list.splits prod.splits)

text \<open>
  C4, as the code has it. A combination request never reads or writes the cache and leaves
  the catalog unchanged, and its result does not depend on the cache. The providers it
  collects have distinct names and are exactly those that a reference names and the
  catalog serves. With no such provider it returns \<^verbatim>\<open>None\<close>; with one it constructs a
  new \<^verbatim>\<open>MCPTools\<close> handle; with several it constructs a new \<^verbatim>\<open>MultiMCPTools\<close>
  handle over the commands of all of them, with their filters concatenated. It raises
  \<^verbatim>\<open>ValueError\<close> instead when the library does not accept the command (or commands),
  and \<^verbatim>\<open>TypeError\<close> while collecting, which happens only when a catalog entry holds
  \<^verbatim>\<open>None\<close> as its \<^verbatim>\<open>env\<close>. Issuing the same request a second time constructs a second
  handle, with the same contents and the next identity.
\<close>

theorem get_combined_mcp_runtime_never_cached:
  "mcp_runtime_cache (fst (get_combined_mcp_runtime lib r refs)) = mcp_runtime_cache r \<and>
   tools (fst (get_combined_mcp_runtime lib r refs)) = tools r \<and>
   snd (get_combined_mcp_runtime lib (r\<lparr>mcp_runtime_cache := c\<rparr>) refs) =
     snd (get_combined_mcp_runtime lib r refs) \<and>
   (case collect_servers (tools r) refs of
      Inl e \<Rightarrow> get_combined_mcp_runtime lib r refs = (r, Inl e)
    | Inr (servers, all_env) \<Rightarrow>
        distinct (map fst servers) \<and>
        (\<forall>server. (server \<in> fst ` set servers) = resolves (tools r) refs server) \<and>
        (servers = [] \<longrightarrow> get_combined_mcp_runtime lib r refs = (r, Inr None)) \<and>
        (\<forall>name info. servers = [(name, info)] \<longrightarrow>
           get_combined_mcp_runtime lib r refs =
             (if mcp_accepts lib (fst info) then
                (r\<lparr>constructed := Suc (constructed r)\<rparr>,
                 Inr (Some (MCPTools (constructed r) (fst info) (env_or_none (Some all_env))
                              (snd info))))
              else (r, Inl ValueError))) \<and>
        (2 \<le> length servers \<longrightarrow>
           get_combined_mcp_runtime lib r refs =
             (if multi_accepts lib (map (\<lambda>kv. fst (snd kv)) servers) then
                (r\<lparr>constructed := Suc (constructed r)\<rparr>,
                 Inr (Some (MultiMCPTools (constructed r) (map (\<lambda>kv. fst (snd kv)) servers)
                              (env_or_none (Some all_env)) (all_filters servers))))
              else (r, Inl ValueError)))) \<and>
   (\<forall>servers all_env server info.
      collect_servers (tools r) refs = Inr (servers, all_env) \<and>
      map_of servers server = Some info \<longrightarrow>
      (\<exists>config. first_config (tools r) server = Some config \<and>
                fst info = get_command config)) \<and>
   ((\<forall>item \<in> set (tools r). cfg_env (tm_config (snd item)) \<noteq> Some None) \<longrightarrow>
      (\<exists>collected. collect_servers (tools r) refs = Inr collected)) \<and>
   (\<forall>h. snd (get_combined_mcp_runtime lib r refs) = Inr (Some h) \<longrightarrow>
      runtime_id h = constructed r \<and>
      snd (get_combined_mcp_runtime lib (fst (get_combined_mcp_runtime lib r refs)) refs) =
        Inr (Some (relabel (Suc (constructed r)) h)))"
proof -
  obtain r' res where c: "get_combined_mcp_runtime lib r refs = (r', res)"
    by (cases "get_combined_mcp_runtime lib r refs")
  note fresh = get_combined_mcp_runtime_fresh [OF c]
  from fresh have frame: "mcp_runtime_cache r' = mcp_runtime_cache r \<and> tools r' = tools r"
    by auto
  have indep: "snd (get_combined_mcp_runtime lib (r\<lparr>mcp_runtime_cache := c\<rparr>) refs) = res"
    using c by (simp add: get_combined_mcp_runtime_cache)
  have shape: "case collect_servers (tools r) refs of
      Inl e \<Rightarrow> get_combined_mcp_runtime lib r refs = (r, Inl e)
    | Inr (servers, all_env) \<Rightarrow>
        distinct (map fst servers) \<and>
        (\<forall>server. (server \<in> fst ` set servers) = resolves (tools r) refs server) \<and>
        (servers = [] \<longrightarrow> get_combined_mcp_runtime lib r refs = (r, Inr None)) \<and>
        (\<forall>name info. servers = [(name, info)] \<longrightarrow>
           get_combined_mcp_runtime lib r refs =
             (if mcp_accepts lib (fst info) then
                (r\<lparr>constructed := Suc (constructed r)\<rparr>,
                 Inr (Some (MCPTools (constructed r) (fst info) (env_or_none (Some all_env))
                              (snd info))))
              else (r, Inl ValueError))) \<and>
        (2 \<le> length servers \<longrightarrow>
           get_combined_mcp_runtime lib r refs =
             (if multi_accepts lib (map (\<lambda>kv. fst (snd kv)) servers) then
                (r\<lparr>constructed := Suc (constructed r)\<rparr>,
                 Inr (Some (MultiMCPTools (constructed r) (map (\<lambda>kv. fst (snd kv)) servers)
                              (env_or_none (Some all_env)) (all_filters servers))))
              else (r, Inl ValueError)))"
  proof (cases "collect_servers (tools r) refs")
    case (Inl e)
    then show ?thesis by (simp add: get_combined_mcp_runtime_def)
  next
    case (Inr collected)
    obtain servers all_env where col: "collected = (servers, all_env)" by (cases collected)
    from Inr col have cs: "collect_servers (tools r) refs = Inr (servers, all_env)" by simp
    have g: "get_combined_mcp_runtime lib r refs = combined_handle lib r servers all_env"
      by (simp add: get_combined_mcp_runtime_def cs)
    from collect_servers_resolves [OF cs] combined_handle_several [of servers lib r all_env]
    show ?thesis
      unfolding cs g by (auto simp: combined_handle_def)
  qed
  have cmds: "\<forall>servers all_env server info.
      collect_servers (tools r) refs = Inr (servers, all_env) \<and>
      map_of servers server = Some info \<longrightarrow>
      (\<exists>config. first_config (tools r) server = Some config \<and>
                fst info = get_command config)"
  proof (intro allI impI)
    fix servers all_env server info
    assume a: "collect_servers (tools r) refs = Inr (servers, all_env) \<and>
      map_of servers server = Some info"
    then have cs: "collect_servers (tools r) refs = Inr (servers, all_env)"
      and m: "map_of servers server = Some info" by simp_all
    from collect_servers_first_reference_wins [OF cs, of server] m
    show "\<exists>config. first_config (tools r) server = Some config \<and>
                fst info = get_command config"
      by (auto split: list.splits option.splits)
  qed
  have typed: "(\<forall>item \<in> set (tools r). cfg_env (tm_config (snd item)) \<noteq> Some None) \<longrightarrow>
      (\<exists>collected. collect_servers (tools r) refs = Inr collected)"
    using collect_loop_typed [of "tools r" refs "([], [])"]
    by (simp add: collect_servers_def)
  have again: "runtime_id h = constructed r \<and>
      snd (get_combined_mcp_runtime lib r' refs) = Inr (Some (relabel (Suc (constructed r)) h))"
    if "res = Inr (Some h)" for h
  proof -
    from fresh that have v: "runtime_id h = constructed r"
      and r': "r' = r\<lparr>constructed := Suc (constructed r)\<rparr>"
      by auto
    have "snd (get_combined_mcp_runtime lib r' refs) =
        Inr (Some (relabel (Suc (constructed r)) h))"
      unfolding r' using c that by (simp add: get_combined_mcp_runtime_again)
    with v show ?thesis by simp
  qed
  from frame indep shape cmds typed again show ?thesis
    unfolding c fst_conv snd_conv by blast
qed

theorem get_combined_mcp_runtime_never_cached_witness:
  "snd (get_combined_mcp_runtime agno
          (fst (get_combined_mcp_runtime agno demo_registry2
                  [''mcp:custom_tools'', ''mcp:github'']))
          [''mcp:custom_tools'', ''mcp:github'']) =
     Inr (Some (MultiMCPTools 1 [Some ''python custom_tools_server.py'', Some ''npx github-mcp'']
             (Some [(''GITHUB_TOKEN'', ''t0'')]) None))"
proof -
  let ?refs = "[''mcp:custom_tools'', ''mcp:github'']"
  let ?h = "MultiMCPTools 0 [Some ''python custom_tools_server.py'', Some ''npx github-mcp'']
             (Some [(''GITHUB_TOKEN'', ''t0'')]) None"
  have s: "snd (get_combined_mcp_runtime agno demo_registry2 ?refs) = Inr (Some ?h)"
    by (simp add: demo_defs registry_defs)
  have c: "constructed demo_registry2 = 0"
    by (simp add: demo_defs registry_defs)
  from get_combined_mcp_runtime_never_cached [of agno demo_registry2 ?refs] s
  have "snd (get_combined_mcp_runtime agno
          (fst (get_combined_mcp_runtime agno demo_registry2 ?refs)) ?refs) =
     Inr (Some (relabel (Suc (constructed demo_registry2)) ?h))"
    by blast
  then show ?thesis by (simp add: c)
qed

text \<open>
  The claim C4 as stated fails: the same request over two providers, issued twice, returns
  two \<^verbatim>\<open>MultiMCPTools\<close> instances, and the cache stays empty.
\<close>

theorem combined_request_twice_two_handles:
  "snd (get_combined_mcp_runtime agno demo_registry2 [''mcp:custom_tools'', ''mcp:github'']) =
     Inr (Some (MultiMCPTools 0 [Some ''python custom_tools_server.py'', Some ''npx github-mcp'']
             (Some [(''GITHUB_TOKEN'', ''t0'')]) None)) \<and>
   snd (get_combined_mcp_runtime agno
          (fst (get_combined_mcp_runtime agno demo_registry2
                  [''mcp:custom_tools'', ''mcp:github'']))
          [''mcp:custom_tools'', ''mcp:github'']) =
     Inr (Some (MultiMCPTools 1 [Some ''python custom_tools_server.py'', Some ''npx github-mcp'']
             (Some [(''GITHUB_TOKEN'', ''t0'')]) None)) \<and>
   dom (mcp_runtime_cache (fst (get_combined_mcp_runtime agno
          (fst (get_combined_mcp_runtime agno demo_registry2
                  [''mcp:custom_tools'', ''mcp:github'']))
          [''mcp:custom_tools'', ''mcp:github'']))) = {}"
  by (simp add: demo_defs registry_defs)

text \<open>
  C5. The code does not do what the claim says. Two references of one combination request
  name the provider \<^verbatim>\<open>custom_tools\<close>, the first asking for \<^verbatim>\<open>generate_id\<close> and the
  second for \<^verbatim>\<open>get_timestamp\<close>; the handle that \<^verbatim>\<open>_get_combined_mcp_runtime\<close> (and
  with it \<^verbatim>\<open>get_tools_for_agent\<close>) returns is filtered to \<^verbatim>\<open>generate_id\<close> alone, and
  the second filter is lost. The same happens with another provider in between. Across
  providers the same function does concatenate the filters, and \<^verbatim>\<open>parse_mcp_config\<close>
  collects the filters of both references when it reads the same request in the bracket
  notation.
\<close>

theorem combined_filters_not_unioned:
  "snd (get_combined_mcp_runtime agno demo_registry
          [''mcp:custom_tools:generate_id'', ''mcp:custom_tools:get_timestamp'']) =
     Inr (Some (MCPTools 0 (Some ''python custom_tools_server.py'') None
                  (Some [''generate_id'']))) \<and>
   snd (get_tools_for_agent agno demo_registry
          [''mcp:custom_tools:generate_id'', ''mcp:custom_tools:get_timestamp'']) =
     Inr [MCPTools 0 (Some ''python custom_tools_server.py'') None (Some [''generate_id''])] \<and>
   snd (get_combined_mcp_runtime agno demo_registry2
          [''mcp:custom_tools:generate_id'', ''mcp:github:create_issue'',
           ''mcp:custom_tools:get_timestamp'']) =
     Inr (Some (MultiMCPTools 0 [Some ''python custom_tools_server.py'', Some ''npx github-mcp'']
                  (Some [(''GITHUB_TOKEN'', ''t0'')])
                  (Some [''generate_id'', ''create_issue'']))) \<and>
   parse_mcp_config no_env demo_servers
          [''mcp:custom_tools[generate_id]'', ''mcp:custom_tools[get_timestamp]''] =
     Inr \<lparr>pr_commands = [''python custom_tools_server.py'', ''python custom_tools_server.py''],
          pr_env = [],
          pr_include_tools = Some [''generate_id'', ''get_timestamp''],
          pr_servers = [(''custom_tools'', Some [''get_timestamp''])]\<rparr>"
  by (simp add: demo_defs registry_defs loader_defs)

subsection \<open>Registration of a provider\<close>

lemma full_name_determines_metadata:
  "full_name n server = full_name n' server \<Longrightarrow>
     mcp_metadata n server c = mcp_metadata n' server c"
  by (auto simp: full_name_def mcp_metadata_def name_or_server_def split: option.splits if_splits)

lemma map_of_register_mcp_tool:
  "map_of (tools (register_mcp_tool r n server c)) =
     (map_of (tools r))(full_name n server \<mapsto> mcp_metadata n server c)"
  by (simp add: register_mcp_tool_def update_conv')

lemma registered_register_mcp_tool:
  "registered (register_mcp_tool r n server c) server c n"
  by (simp add: registered_def map_of_register_mcp_tool)

lemma registered_preserved:
  "registered r server c n' \<Longrightarrow> registered (register_mcp_tool r n server c) server c n'"
  using full_name_determines_metadata [of n server n' c]
  by (auto simp: registered_def map_of_register_mcp_tool)

lemma registered_fold:
  "(\<forall>n \<in> N. registered r server c n) \<Longrightarrow>
   \<forall>n \<in> N \<union> Some ` set ts.
      registered (fold (\<lambda>tool r'. register_mcp_tool r' (Some tool) server c) ts r) server c n"
proof (induction ts arbitrary: r N)
  case Nil
  then show ?case by simp
next
  case (Cons t ts)
  let ?r = "register_mcp_tool r (Some t) server c"
  have "\<forall>n \<in> insert (Some t) N. registered ?r server c n"
    using Cons.prems by (auto intro: registered_register_mcp_tool registered_preserved)
  from Cons.IH [OF this] show ?case by simp
qed

lemma registered_after:
  "\<forall>n \<in> insert None (Some ` set ts).
      registered (register_mcp_server_tools r server ts config) server (Some config) n"
proof -
  let ?r = "fold (\<lambda>tool r'. register_mcp_tool r' (Some tool) server (Some config)) ts r"
  have "\<forall>n \<in> {} \<union> Some ` set ts. registered ?r server (Some config) n"
    by (rule registered_fold) simp
  then show ?thesis
    by (auto simp: register_mcp_server_tools_def
        intro: registered_register_mcp_tool registered_preserved)
qed

lemma register_mcp_tool_triv:
  "registered r server c n \<Longrightarrow> register_mcp_tool r n server c = r"
  by (simp add: registered_def register_mcp_tool_def update_triv)

lemma fold_register_triv:
  "\<forall>t \<in> set ts. registered r server c (Some t) \<Longrightarrow>
   fold (\<lambda>tool r'. register_mcp_tool r' (Some tool) server c) ts r = r"
  by (induction ts) (simp_all add: register_mcp_tool_triv)

lemma register_mcp_server_tools_twice:
  "register_mcp_server_tools (register_mcp_server_tools r server ts config) server ts config =
   register_mcp_server_tools r server ts config"
proof -
  let ?R = "register_mcp_server_tools r server ts config"
  from registered_after [of ts r server config]
  have a: "\<forall>t \<in> set ts. registered ?R server (Some config) (Some t)"
    and b: "registered ?R server (Some config) None"
    by auto
  have "register_mcp_server_tools ?R server ts config =
        register_mcp_tool ?R None server (Some config)"
    unfolding register_mcp_server_tools_def [of ?R]
    by (simp only: fold_register_triv [OF a])
  with b show ?thesis by (simp add: register_mcp_tool_triv)
qed

lemma keys_register_mcp_tool:
  "fst ` set (tools (register_mcp_tool r n server c)) =
     insert (full_name n server) (fst ` set (tools r))"
  by (simp add: register_mcp_tool_def dom_update)

lemma keys_fold_register:
  "fst ` set (tools (fold (\<lambda>tool r'. register_mcp_tool r' (Some tool) server c) ts r)) =
     fst ` set (tools r) \<union> (\<lambda>t. full_name (Some t) server) ` set ts"
  by (induction ts arbitrary: r) (auto simp: keys_register_mcp_tool)

lemma keys_register_mcp_server_tools:
  "fst ` set (tools (register_mcp_server_tools r server ts config)) =
     fst ` set (tools r) \<union> {''mcp:'' @ server} \<union>
     {''mcp:'' @ server @ '':'' @ t | t. t \<in> set ts \<and> t \<noteq> []}"
  by (auto simp: register_mcp_server_tools_def keys_register_mcp_tool keys_fold_register
      full_name_def split: if_splits)

lemma distinct_register_mcp_tool:
  "distinct (map fst (tools r)) \<Longrightarrow> distinct (map fst (tools (register_mcp_tool r n server c)))"
  by (simp add: register_mcp_tool_def distinct_update)

lemma distinct_fold_register:
  "distinct (map fst (tools r)) \<Longrightarrow>
   distinct (map fst (tools (fold (\<lambda>tool r'. register_mcp_tool r' (Some tool) server c) ts r)))"
  by (induction ts arbitrary: r) (simp_all add: distinct_register_mcp_tool)

lemma distinct_register_mcp_server_tools:
  "distinct (map fst (tools r)) \<Longrightarrow>
   distinct (map fst (tools (register_mcp_server_tools r server ts config)))"
  by (simp add: register_mcp_server_tools_def distinct_register_mcp_tool distinct_fold_register)

lemma frame_register_mcp_server_tools:
  "mcp_runtime_cache (register_mcp_server_tools r server ts config) = mcp_runtime_cache r \<and>
   constructed (register_mcp_server_tools r server ts config) = constructed r"
proof -
  have "mcp_runtime_cache (fold (\<lambda>tool r'. register_mcp_tool r' (Some tool) server c) ts r) = mcp_runtime_cache r \<and>
        constructed (fold (\<lambda>tool r'. register_mcp_tool r' (Some tool) server c) ts r) = constructed r" for c
    by (induction ts arbitrary: r) (simp_all add: register_mcp_tool_def)
  then show ?thesis by (simp add: register_mcp_server_tools_def register_mcp_tool_def)
qed

text \<open>
  C6, as the code has it. Registering a provider twice with the same capabilities and
  configuration leaves the registry as registering it once. After a registration the
  keys of the catalog are the former keys, the server-wide key \<^verbatim>\<open>mcp:{server}\<close> and one
  key \<^verbatim>\<open>mcp:{server}:{capability}\<close> for each non-empty capability name; keys stay
  distinct; and each of these keys holds the entry of this registration, whatever it held
  before. An empty capability name has no key of its own: it is written to the
  server-wide key.
\<close>

theorem register_mcp_server_tools_idempotent:
  "register_mcp_server_tools (register_mcp_server_tools r server ts config) server ts config =
     register_mcp_server_tools r server ts config \<and>
   fst ` set (tools (register_mcp_server_tools r server ts config)) =
     fst ` set (tools r) \<union> {''mcp:'' @ server} \<union>
     {''mcp:'' @ server @ '':'' @ t | t. t \<in> set ts \<and> t \<noteq> []} \<and>
   (distinct (map fst (tools r)) \<longrightarrow>
      distinct (map fst (tools (register_mcp_server_tools r server ts config)))) \<and>
   map_of (tools (register_mcp_server_tools r server ts config)) (''mcp:'' @ server) =
     Some \<lparr>tm_name = server, tm_type = MCP, tm_server = Some server,
           tm_runtime_factory = None, tm_config = config\<rparr> \<and>
   (\<forall>t \<in> set ts. t \<noteq> [] \<longrightarrow>
      map_of (tools (register_mcp_server_tools r server ts config))
        (''mcp:'' @ server @ '':'' @ t) =
      Some \<lparr>tm_name = t, tm_type = MCP, tm_server = Some server,
            tm_runtime_factory = None, tm_config = config\<rparr>)"
proof (intro conjI impI ballI)
  show "register_mcp_server_tools (register_mcp_server_tools r server ts config) server ts config =
     register_mcp_server_tools r server ts config"
    by (rule register_mcp_server_tools_twice)
  show "fst ` set (tools (register_mcp_server_tools r server ts config)) =
     fst ` set (tools r) \<union> {''mcp:'' @ server} \<union>
     {''mcp:'' @ server @ '':'' @ t | t. t \<in> set ts \<and> t \<noteq> []}"
    by (rule keys_register_mcp_server_tools)
  show "distinct (map fst (tools (register_mcp_server_tools r server ts config)))"
    if "distinct (map fst (tools r))"
    using that by (rule distinct_register_mcp_server_tools)
  show "map_of (tools (register_mcp_server_tools r server ts config)) (''mcp:'' @ server) =
     Some \<lparr>tm_name = server, tm_type = MCP, tm_server = Some server,
           tm_runtime_factory = None, tm_config = config\<rparr>"
    using registered_after [of ts r server config]
    by (simp add: registered_def full_name_def mcp_metadata_def name_or_server_def
        config_or_empty_def)
  show "map_of (tools (register_mcp_server_tools r server ts config))
        (''mcp:'' @ server @ '':'' @ t) =
      Some \<lparr>tm_name = t, tm_type = MCP, tm_server = Some server,
            tm_runtime_factory = None, tm_config = config\<rparr>"
    if "t \<in> set ts" and "t \<noteq> []" for t
  proof -
    from registered_after [of ts r server config] that
    have "registered (register_mcp_server_tools r server ts config) server (Some config) (Some t)"
      by simp
    with that show ?thesis
      by (simp add: registered_def full_name_def mcp_metadata_def name_or_server_def
          config_or_empty_def)
  qed
qed

theorem register_mcp_server_tools_idempotent_witness:
  "register_mcp_server_tools demo_registry ''custom_tools'' [''generate_id'', ''get_timestamp'']
     demo_config = demo_registry \<and>
   map_of (tools (register_mcp_server_tools demo_registry ''custom_tools'' [''generate_id'']
     github_config)) ''mcp:custom_tools:generate_id'' =
     Some \<lparr>tm_name = ''generate_id'', tm_type = MCP, tm_server = Some ''custom_tools'',
           tm_runtime_factory = None, tm_config = github_config\<rparr>"
proof -
  have a: "register_mcp_server_tools demo_registry ''custom_tools''
      [''generate_id'', ''get_timestamp''] demo_config = demo_registry"
    unfolding demo_registry_def
    by (rule register_mcp_server_tools_idempotent [THEN conjunct1])
  have b: "map_of (tools (register_mcp_server_tools demo_registry ''custom_tools''
      [''generate_id''] github_config)) ''mcp:custom_tools:generate_id'' =
     Some \<lparr>tm_name = ''generate_id'', tm_type = MCP, tm_server = Some ''custom_tools'',
           tm_runtime_factory = None, tm_config = github_config\<rparr>"
    using register_mcp_server_tools_idempotent
      [of demo_registry "''custom_tools''" "[''generate_id'']" github_config]
    by simp
  from a b show ?thesis by simp
qed

text \<open>
  The claim C6 as stated fails for a capability list that holds the empty name: the
  catalog has the server-wide entry only, and no entry under \<^verbatim>\<open>mcp:x:\<close>.
\<close>

theorem empty_capability_has_no_entry:
  "tools (register_mcp_server_tools init_registry ''x'' [''''] demo_config) =
     [(''mcp:x'', \<lparr>tm_name = ''x'', tm_type = MCP, tm_server = Some ''x'',
                   tm_runtime_factory = None, tm_config = demo_config\<rparr>)] \<and>
   map_of (tools (register_mcp_server_tools init_registry ''x'' [''''] demo_config)) ''mcp:x:'' = None"
  by (simp add: registry_defs)

section \<open>Properties of the reference grammar\<close>

lemma split_no_sep: "c \<notin> set xs \<Longrightarrow> split c xs = [xs]"
  by (induction xs) auto

lemma split_at_sep: "c \<notin> set xs \<Longrightarrow> split c (xs @ c # ys) = xs # split c ys"
  by (induction xs) auto

lemma split_nonempty: "split c xs \<noteq> []"
  by (induction xs) (auto split: list.splits)

lemma index_bracket:
  assumes "c \<notin> set xs"
  shows "index (xs @ c # ys) c = length xs"
proof -
  have "takeWhile (\<lambda>x. x \<noteq> c) (xs @ c # ys) = xs @ takeWhile (\<lambda>x. x \<noteq> c) (c # ys)"
    by (rule takeWhile_append2) (use assms in auto)
  then show ?thesis by (simp add: index_def)
qed

subsection \<open>How the text after the prefix is read\<close>

lemma read_unbracketed:
  "\<not> bracketed c \<Longrightarrow> read_server_name c = c \<and> read_tools c = None"
  by (simp add: read_server_name_def read_tools_def)

lemma read_opening_first:
  assumes p1: "CHR ''['' \<notin> set p" and p2: "CHR '']'' \<notin> set p" and b: "CHR '']'' \<notin> set body"
  shows "read_server_name (p @ ''['' @ body @ '']'' @ rest) = p \<and>
         read_tools (p @ ''['' @ body @ '']'' @ rest) = Some (map strip (split CHR '','' body))"
proof -
  let ?c = "p @ ''['' @ body @ '']'' @ rest"
  have i: "index ?c CHR ''['' = length p"
    using index_bracket [OF p1, of "body @ '']'' @ rest"] by simp
  have "CHR '']'' \<notin> set (p @ ''['' @ body)" using p2 b by simp
  from index_bracket [OF this, of rest]
  have j: "index ?c CHR '']'' = length p + 1 + length body" by simp
  have sl: "slice ?c (index ?c CHR ''['' + 1) (index ?c CHR '']'') = body"
    unfolding i j by (simp add: slice_def)
  have tk: "take (index ?c CHR ''['') ?c = p"
    unfolding i by simp
  have br: "bracketed ?c" by (simp add: bracketed_def)
  show ?thesis
    unfolding read_server_name_def read_tools_def sl tk using br by simp
qed

lemma read_closing_first:
  assumes q1: "CHR ''['' \<notin> set q" and q2: "CHR '']'' \<notin> set q" and m: "CHR ''['' \<notin> set m"
  shows "read_server_name (q @ '']'' @ m @ ''['' @ rest) = q @ '']'' @ m \<and>
         read_tools (q @ '']'' @ m @ ''['' @ rest) = Some ['''']"
proof -
  let ?c = "q @ '']'' @ m @ ''['' @ rest"
  have "CHR ''['' \<notin> set (q @ '']'' @ m)" using q1 m by simp
  from index_bracket [OF this, of rest]
  have i: "index ?c CHR ''['' = length q + 1 + length m" by simp
  have j: "index ?c CHR '']'' = length q"
    using index_bracket [OF q2, of "m @ ''['' @ rest"] by simp
  have sl: "slice ?c (index ?c CHR ''['' + 1) (index ?c CHR '']'') = []"
    unfolding i j by (simp add: slice_def)
  have tk: "take (index ?c CHR ''['') ?c = q @ '']'' @ m"
    unfolding i by simp
  have br: "bracketed ?c" by (simp add: bracketed_def)
  show ?thesis
    unfolding read_server_name_def read_tools_def sl tk using br by (simp add: strip_def)
qed

lemma first_occurrence:
  "c \<in> set xs \<Longrightarrow> \<exists>ys zs. xs = ys @ c # zs \<and> c \<notin> set ys"
  by (rule split_list_first)

lemma bracketed_forms:
  assumes "bracketed c"
  shows "(\<exists>p body rest. c = p @ ''['' @ body @ '']'' @ rest \<and>
            CHR ''['' \<notin> set p \<and> CHR '']'' \<notin> set p \<and> CHR '']'' \<notin> set body) \<or>
         (\<exists>q m rest. c = q @ '']'' @ m @ ''['' @ rest \<and>
            CHR ''['' \<notin> set q \<and> CHR '']'' \<notin> set q \<and> CHR ''['' \<notin> set m)"
proof -
  from assms have o: "CHR ''['' \<in> set c" and cl: "CHR '']'' \<in> set c"
    by (simp_all add: bracketed_def)
  from split_list_first [OF o] obtain p zs where
    c1: "c = p @ CHR ''['' # zs" and p1: "CHR ''['' \<notin> set p" by blast
  show ?thesis
  proof (cases "CHR '']'' \<in> set p")
    case True
    from split_list_first [OF True] obtain q m where
      p: "p = q @ CHR '']'' # m" and q2: "CHR '']'' \<notin> set q" by blast
    from p p1 have "CHR ''['' \<notin> set q" "CHR ''['' \<notin> set m" by simp_all
    with c1 p q2 have "c = q @ '']'' @ m @ ''['' @ zs \<and>
            CHR ''['' \<notin> set q \<and> CHR '']'' \<notin> set q \<and> CHR ''['' \<notin> set m"
      by simp
    then show ?thesis by blast
  next
    case False
    with cl c1 have "CHR '']'' \<in> set zs" by simp
    from split_list_first [OF this] obtain body rest where
      zs: "zs = body @ CHR '']'' # rest" and b: "CHR '']'' \<notin> set body" by blast
    with c1 p1 False have "c = p @ ''['' @ body @ '']'' @ rest \<and>
            CHR ''['' \<notin> set p \<and> CHR '']'' \<notin> set p \<and> CHR '']'' \<notin> set body"
      by simp
    then show ?thesis by blast
  qed
qed

lemma read_tools_nonempty: "read_tools c = Some l \<Longrightarrow> l \<noteq> []"
  by (auto simp: read_tools_def split_nonempty split: if_splits)

subsection \<open>No reference is rejected\<close>

lemma parse_step_unconfigured:
  assumes "map_of cfgs (read_server_name c) = None"
  shows "parse_step getenv cfgs (''mcp:'' @ c) acc = Inr (fst acc, snd acc @ filter_of c)"
proof -
  have pre: "startswith (''mcp:'' @ c) ''mcp:'' = True" "drop 4 (''mcp:'' @ c) = c"
    by (simp_all add: startswith_def)
  show ?thesis
    unfolding parse_step_def Let_def pre if_True
    by (simp add: assms filter_of_def split: option.splits)
qed

lemma build_command_well_typed:
  "well_typed sc \<Longrightarrow> \<exists>command. build_command getenv sc = Inr command"
  by (auto simp: well_typed_def build_command_def Let_def split: option.splits)

lemma resolved_env_well_typed:
  "well_typed sc \<Longrightarrow> \<exists>e. resolved_env getenv sc = Some e"
  by (auto simp: well_typed_def resolved_env_def split: option.splits)

lemma parse_step_error:
  assumes "parse_step getenv cfgs ref acc = Inl e"
  shows "e = TypeError \<and> startswith ref ''mcp:'' \<and>
     (\<exists>sc. map_of cfgs (read_server_name (drop 4 ref)) = Some sc \<and>
           sc_type sc = Some ''stdio'' \<and> \<not> well_typed sc)"
proof -
  from assms have pre: "startswith ref ''mcp:''"
    by (auto simp: parse_step_def split: if_splits)
  from assms pre obtain sc where
    sc: "map_of cfgs (read_server_name (drop 4 ref)) = Some sc"
    by (auto simp: parse_step_def Let_def split: option.splits)
  from assms pre sc have ty: "sc_type sc = Some ''stdio''"
    by (auto simp: parse_step_def Let_def split: if_splits)
  have e: "e = TypeError \<and> \<not> well_typed sc"
  proof (cases "build_command getenv sc")
    case (Inl e')
    then have "\<not> well_typed sc" using build_command_well_typed [of sc getenv] by auto
    moreover from Inl have "e' = TypeError"
      by (auto simp: build_command_def Let_def split: option.splits if_splits)
    moreover from assms pre sc ty Inl have "e = e'"
      by (simp add: parse_step_def Let_def)
    ultimately show ?thesis by simp
  next
    case (Inr command)
    with assms pre sc ty have "resolved_env getenv sc = None \<and> e = TypeError"
      by (auto simp: parse_step_def Let_def split: option.splits if_splits)
    with resolved_env_well_typed [of sc getenv] show ?thesis by auto
  qed
  with pre sc ty show ?thesis by blast
qed

lemma parse_loop_error:
  "parse_loop getenv cfgs refs acc = Inl e \<Longrightarrow>
   e = TypeError \<and>
   (\<exists>ref \<in> set refs. startswith ref ''mcp:'' \<and>
      (\<exists>sc. map_of cfgs (read_server_name (drop 4 ref)) = Some sc \<and>
            sc_type sc = Some ''stdio'' \<and> \<not> well_typed sc))"
proof (induction refs arbitrary: acc)
  case Nil
  then show ?case by simp
next
  case (Cons ref refs)
  show ?case
  proof (cases "parse_step getenv cfgs ref acc")
    case (Inl e')
    with Cons.prems have "e' = e" by simp
    with parse_step_error [OF Inl] show ?thesis by auto
  next
    case (Inr acc')
    with Cons.prems have "parse_loop getenv cfgs refs acc' = Inl e" by simp
    from Cons.IH [OF this] show ?thesis by auto
  qed
qed

lemma parse_mcp_config_error:
  assumes "parse_mcp_config getenv cfgs refs = Inl e"
  shows "e = TypeError \<and>
   (\<exists>ref \<in> set refs. startswith ref ''mcp:'' \<and>
      (\<exists>sc. map_of cfgs (read_server_name (drop 4 ref)) = Some sc \<and>
            sc_type sc = Some ''stdio'' \<and> \<not> well_typed sc))"
proof -
  from assms have "parse_loop getenv cfgs refs (empty_result, []) = Inl e"
    by (auto simp: parse_mcp_config_def split: sum.splits prod.splits)
  then show ?thesis by (rule parse_loop_error)
qed

lemma parse_loop_append:
  "parse_loop getenv cfgs (xs @ ys) acc =
     (case parse_loop getenv cfgs xs acc of
        Inl e \<Rightarrow> Inl e
      | Inr acc' \<Rightarrow> parse_loop getenv cfgs ys acc')"
  by (induction xs arbitrary: acc) (auto split: sum.splits)

lemma parse_mcp_config_unconfigured:
  assumes "map_of cfgs (read_server_name c) = None"
  shows "parse_mcp_config getenv cfgs [''mcp:'' @ c] =
     Inr (case read_tools c of
            None \<Rightarrow> empty_result
          | Some l \<Rightarrow> empty_result\<lparr>pr_include_tools := Some l\<rparr>)"
proof -
  have step: "parse_step getenv cfgs (''mcp:'' @ c) (empty_result, []) =
      Inr (empty_result, filter_of c)"
    using parse_step_unconfigured [OF assms, of getenv "(empty_result, [])"] by simp
  show ?thesis
    unfolding parse_mcp_config_def parse_loop.simps step sum.case prod.case
    by (auto simp: filter_of_def dest: read_tools_nonempty split: option.splits)
qed

lemma parse_mcp_config_skips:
  assumes nb: "\<not> bracketed c" and un: "map_of cfgs c = None"
  shows "parse_mcp_config getenv cfgs (refs @ (''mcp:'' @ c) # refs') =
         parse_mcp_config getenv cfgs (refs @ refs')"
proof -
  from nb have rd: "read_server_name c = c" "filter_of c = []"
    by (simp_all add: read_unbracketed filter_of_def)
  have step: "parse_step getenv cfgs (''mcp:'' @ c) acc = Inr acc" for acc
    using parse_step_unconfigured [of cfgs c getenv acc] un rd by simp
  have "parse_loop getenv cfgs (refs @ (''mcp:'' @ c) # refs') acc =
        parse_loop getenv cfgs (refs @ refs') acc" for acc
    by (simp add: parse_loop_append step [simplified] split: sum.splits)
  then show ?thesis
    by (simp only: parse_mcp_config_def)
qed

lemma get_tool_runtime_error:
  assumes "snd (get_tool_runtime lib r ref) = Inl e"
  shows "e = ValueError \<and> mcp_runtime_cache r ref = None \<and>
     (\<exists>server_config. first_config (tools r) (split CHR '':'' ref ! 1) \<noteq> None \<and>
        snd (scan_server (tools r) (split CHR '':'' ref ! 1)) = Some server_config \<and>
        \<not> mcp_accepts lib (get_command server_config))"
proof -
  from assms have m: "snd (get_mcp_runtime lib r ref) = Inl e"
    by (auto simp: get_tool_runtime_def split: option.splits if_splits)
  have miss: "mcp_runtime_cache r ref = None"
  proof (cases "mcp_runtime_cache r ref")
    case (Some h)
    with m show ?thesis by (simp add: get_mcp_runtime_hit)
  qed simp
  from m get_mcp_runtime_miss [OF miss, of lib] obtain server_config where
    s: "snd (scan_server (tools r) (split CHR '':'' ref ! 1)) = Some server_config"
    and "e = ValueError" and "\<not> mcp_accepts lib (get_command server_config)"
    by (auto split: if_splits option.splits)
  moreover from s have "first_config (tools r) (split CHR '':'' ref ! 1) \<noteq> None"
    using scan_server_None_iff [of "tools r" "split CHR '':'' ref ! 1"] by simp
  ultimately show ?thesis using miss by blast
qed

text \<open>
  C8, as the code has it. No reference is rejected for its format, whatever its brackets
  and its provider name. \<^verbatim>\<open>parse_mcp_config\<close> raises only \<^verbatim>\<open>TypeError\<close>, and only when
  a reference names a configured \<^verbatim>\<open>stdio\<close> provider whose \<^verbatim>\<open>command\<close>, \<^verbatim>\<open>args\<close>
  or \<^verbatim>\<open>env\<close> is \<^verbatim>\<open>None\<close>; \<^verbatim>\<open>get_tool_runtime\<close> raises only the \<^verbatim>\<open>ValueError\<close>
  of the library, and only for a registered provider whose command the library does not
  accept. The text \<open>c\<close> after the prefix is read as follows. When not both bracket
  characters occur in it, all of it is the provider name and there is no filter. When
  both occur, either the first opening bracket comes before the first closing one, and
  the provider name is the text \<open>p\<close> before it (possibly empty) and the filter the
  stripped parts of the text \<open>body\<close> between the two (which may hold further opening
  brackets; what follows the closing bracket is ignored); or the first closing bracket
  comes first, and the provider name is the text before the first opening bracket and the
  filter is the one empty name. When no provider is configured under the name read, the
  call returns normally, and the filter read is still added to \<^verbatim>\<open>include_tools\<close>; a
  reference without a filter is then skipped without a trace, the result being that of
  the list without it.
\<close>

theorem parse_mcp_config_never_rejects:
  "(\<forall>e. parse_mcp_config getenv cfgs refs = Inl e \<longrightarrow>
      e = TypeError \<and>
      (\<exists>ref \<in> set refs. startswith ref ''mcp:'' \<and>
         (\<exists>sc. map_of cfgs (read_server_name (drop 4 ref)) = Some sc \<and>
               sc_type sc = Some ''stdio'' \<and> \<not> well_typed sc))) \<and>
   (\<forall>e. snd (get_tool_runtime lib r ref) = Inl e \<longrightarrow>
      e = ValueError \<and> mcp_runtime_cache r ref = None \<and>
      (\<exists>server_config. first_config (tools r) (split CHR '':'' ref ! 1) \<noteq> None \<and>
         snd (scan_server (tools r) (split CHR '':'' ref ! 1)) = Some server_config \<and>
         \<not> mcp_accepts lib (get_command server_config))) \<and>
   (\<not> bracketed c \<longrightarrow> read_server_name c = c \<and> read_tools c = None) \<and>
   (bracketed c \<longrightarrow>
      (\<exists>p body rest. c = p @ ''['' @ body @ '']'' @ rest \<and>
          CHR ''['' \<notin> set p \<and> CHR '']'' \<notin> set p \<and> CHR '']'' \<notin> set body) \<or>
      (\<exists>q m rest. c = q @ '']'' @ m @ ''['' @ rest \<and>
          CHR ''['' \<notin> set q \<and> CHR '']'' \<notin> set q \<and> CHR ''['' \<notin> set m)) \<and>
   (\<forall>p body rest. c = p @ ''['' @ body @ '']'' @ rest \<and>
        CHR ''['' \<notin> set p \<and> CHR '']'' \<notin> set p \<and> CHR '']'' \<notin> set body \<longrightarrow>
      read_server_name c = p \<and> read_tools c = Some (map strip (split CHR '','' body))) \<and>
   (\<forall>q m rest. c = q @ '']'' @ m @ ''['' @ rest \<and>
        CHR ''['' \<notin> set q \<and> CHR '']'' \<notin> set q \<and> CHR ''['' \<notin> set m \<longrightarrow>
      read_server_name c = q @ '']'' @ m \<and> read_tools c = Some ['''']) \<and>
   (map_of cfgs (read_server_name c) = None \<longrightarrow>
      parse_mcp_config getenv cfgs [''mcp:'' @ c] =
        Inr (case read_tools c of
               None \<Rightarrow> empty_result
             | Some l \<Rightarrow> empty_result\<lparr>pr_include_tools := Some l\<rparr>) \<and>
      (\<forall>acc. parse_step getenv cfgs (''mcp:'' @ c) acc =
         Inr (fst acc, snd acc @ (case read_tools c of None \<Rightarrow> [] | Some l \<Rightarrow> l)))) \<and>
   (\<not> bracketed c \<and> map_of cfgs c = None \<longrightarrow>
      parse_mcp_config getenv cfgs (refs @ (''mcp:'' @ c) # refs') =
      parse_mcp_config getenv cfgs (refs @ refs'))"
proof -
  have a: "\<forall>e. parse_mcp_config getenv cfgs refs = Inl e \<longrightarrow>
      e = TypeError \<and>
      (\<exists>ref \<in> set refs. startswith ref ''mcp:'' \<and>
         (\<exists>sc. map_of cfgs (read_server_name (drop 4 ref)) = Some sc \<and>
               sc_type sc = Some ''stdio'' \<and> \<not> well_typed sc))"
    using parse_mcp_config_error by blast
  have b: "\<forall>e. snd (get_tool_runtime lib r ref) = Inl e \<longrightarrow>
      e = ValueError \<and> mcp_runtime_cache r ref = None \<and>
      (\<exists>server_config. first_config (tools r) (split CHR '':'' ref ! 1) \<noteq> None \<and>
         snd (scan_server (tools r) (split CHR '':'' ref ! 1)) = Some server_config \<and>
         \<not> mcp_accepts lib (get_command server_config))"
    using get_tool_runtime_error by blast
  have c1: "\<not> bracketed c \<longrightarrow> read_server_name c = c \<and> read_tools c = None"
    using read_unbracketed by blast
  have c2: "bracketed c \<longrightarrow>
      (\<exists>p body rest. c = p @ ''['' @ body @ '']'' @ rest \<and>
          CHR ''['' \<notin> set p \<and> CHR '']'' \<notin> set p \<and> CHR '']'' \<notin> set body) \<or>
      (\<exists>q m rest. c = q @ '']'' @ m @ ''['' @ rest \<and>
          CHR ''['' \<notin> set q \<and> CHR '']'' \<notin> set q \<and> CHR ''['' \<notin> set m)"
    using bracketed_forms by blast
  have c3: "\<forall>p body rest. c = p @ ''['' @ body @ '']'' @ rest \<and>
        CHR ''['' \<notin> set p \<and> CHR '']'' \<notin> set p \<and> CHR '']'' \<notin> set body \<longrightarrow>
      read_server_name c = p \<and> read_tools c = Some (map strip (split CHR '','' body))"
    using read_opening_first by blast
  have c4: "\<forall>q m rest. c = q @ '']'' @ m @ ''['' @ rest \<and>
        CHR ''['' \<notin> set q \<and> CHR '']'' \<notin> set q \<and> CHR ''['' \<notin> set m \<longrightarrow>
      read_server_name c = q @ '']'' @ m \<and> read_tools c = Some ['''']"
    using read_closing_first by blast
  have d: "map_of cfgs (read_server_name c) = None \<longrightarrow>
      parse_mcp_config getenv cfgs [''mcp:'' @ c] =
        Inr (case read_tools c of
               None \<Rightarrow> empty_result
             | Some l \<Rightarrow> empty_result\<lparr>pr_include_tools := Some l\<rparr>) \<and>
      (\<forall>acc. parse_step getenv cfgs (''mcp:'' @ c) acc =
         Inr (fst acc, snd acc @ (case read_tools c of None \<Rightarrow> [] | Some l \<Rightarrow> l)))"
    using parse_mcp_config_unconfigured [of cfgs c getenv]
      parse_step_unconfigured [of cfgs c getenv]
    by (simp add: filter_of_def)
  have e: "\<not> bracketed c \<and> map_of cfgs c = None \<longrightarrow>
      parse_mcp_config getenv cfgs (refs @ (''mcp:'' @ c) # refs') =
      parse_mcp_config getenv cfgs (refs @ refs')"
    using parse_mcp_config_skips by blast
  from a b c1 c2 c3 c4 d e show ?thesis by (intro conjI)
qed

theorem parse_mcp_config_never_rejects_witness:
  "parse_mcp_config no_env demo_servers [''mcp:[generate_id]''] =
     Inr (empty_result\<lparr>pr_include_tools := Some [''generate_id'']\<rparr>)"
proof -
  let ?c = "''[generate_id]''"
  have rd: "read_server_name ?c = [] \<and> read_tools ?c = Some [''generate_id'']"
    by (simp add: loader_defs)
  have un: "map_of demo_servers (read_server_name ?c) = None"
    by (simp add: rd demo_servers_def)
  note k = parse_mcp_config_never_rejects [of no_env demo_servers "[]" agno demo_registry "[]" ?c "[]"]
  from k un have "parse_mcp_config no_env demo_servers [''mcp:'' @ ?c] =
        Inr (case read_tools ?c of
               None \<Rightarrow> empty_result
             | Some l \<Rightarrow> empty_result\<lparr>pr_include_tools := Some l\<rparr>)"
    by blast
  then show ?thesis by (simp add: rd)
qed

text \<open>
  The claim C8 as stated fails: references with an unbalanced bracket, with the brackets
  in the wrong order, with two opening brackets, with an empty provider name, and the
  bare prefix are all parsed without an error, and the registry resolves them to
  \<^verbatim>\<open>None\<close>.
\<close>

theorem malformed_reference_not_rejected:
  "parse_mcp_config no_env demo_servers [''mcp:custom_tools[generate_id''] = Inr empty_result \<and>
   parse_mcp_config no_env demo_servers [''mcp:custom_tools]generate_id['']
     = Inr (empty_result\<lparr>pr_include_tools := Some ['''']\<rparr>) \<and>
   parse_mcp_config no_env demo_servers [''mcp:''] = Inr empty_result \<and>
   parse_mcp_config no_env demo_servers [''mcp:[generate_id]'']
     = Inr (empty_result\<lparr>pr_include_tools := Some [''generate_id'']\<rparr>) \<and>
   parse_mcp_config no_env demo_servers [''mcp:custom_tools[[generate_id]''] =
     Inr \<lparr>pr_commands = [''python custom_tools_server.py''], pr_env = [],
          pr_include_tools = Some [''[generate_id''],
          pr_servers = [(''custom_tools'', Some [''[generate_id''])]\<rparr> \<and>
   get_tool_runtime agno demo_registry ''mcp:custom_tools[generate_id'' =
     (demo_registry, Inr None) \<and>
   get_tool_runtime agno demo_registry ''mcp:'' = (demo_registry, Inr None) \<and>
   get_combined_mcp_runtime agno demo_registry [''mcp:custom_tools[generate_id'', ''mcp:''] =
     (demo_registry, Inr None)"
  by (simp add: loader_defs demo_defs registry_defs)

subsection \<open>Bracketed references at the registry\<close>

lemma no_entry_no_config:
  "\<forall>item \<in> set items. tm_server (snd item) \<noteq> Some server \<Longrightarrow>
   snd (scan_server items server) = None"
proof -
  assume a: "\<forall>item \<in> set items. tm_server (snd item) \<noteq> Some server"
  then have "filter (serves server) items = []"
    by (auto simp: filter_empty_conv serves_def)
  then show ?thesis by (simp add: scan_server_config)
qed

lemma split_bracket_ref:
  assumes "CHR '':'' \<notin> set p" and "CHR '':'' \<notin> set caps"
  shows "split CHR '':'' (''mcp:'' @ p @ ''['' @ caps @ '']'') = [''mcp'', p @ ''['' @ caps @ '']'']"
proof -
  have "CHR '':'' \<notin> set (p @ ''['' @ caps @ '']'')" using assms by simp
  then have "split CHR '':'' (p @ ''['' @ caps @ '']'') = [p @ ''['' @ caps @ '']'']"
    by (rule split_no_sep)
  moreover have "split CHR '':'' (''mcp'' @ CHR '':'' # (p @ ''['' @ caps @ '']'')) =
      ''mcp'' # split CHR '':'' (p @ ''['' @ caps @ '']'')"
    by (rule split_at_sep) simp
  ultimately show ?thesis by simp
qed

lemma get_tool_runtime_bracket_ref:
  assumes p: "CHR '':'' \<notin> set p" and caps: "CHR '':'' \<notin> set caps"
    and inv: "bracket_free r"
  shows "get_tool_runtime lib r (''mcp:'' @ p @ ''['' @ caps @ '']'') = (r, Inr None)"
proof -
  let ?ref = "''mcp:'' @ p @ ''['' @ caps @ '']''"
  let ?server = "p @ ''['' @ caps @ '']''"
  have parts: "split CHR '':'' ?ref = [''mcp'', ?server]"
    using p caps by (rule split_bracket_ref)
  have pre: "startswith ?ref ''mcp:''" by (simp add: startswith_def)
  have br: "CHR ''['' \<in> set ?server" by simp
  have not_local: "tm_type md \<noteq> LOCAL" if "map_of (tools r) ?ref = Some md" for md
  proof -
    from that have "(?ref, md) \<in> set (tools r)" by (rule map_of_SomeD)
    with inv pre show ?thesis by (fastforce simp: bracket_free_def)
  qed
  have miss: "mcp_runtime_cache r ?ref = None"
  proof (rule ccontr)
    assume "mcp_runtime_cache r ?ref \<noteq> None"
    then have "?ref \<in> dom (mcp_runtime_cache r)" by auto
    with inv have "2 \<le> length (split CHR '':'' ?ref) \<longrightarrow> CHR ''['' \<notin> set (split CHR '':'' ?ref ! 1)"
      unfolding bracket_free_def by blast
    with parts br show False by simp
  qed
  have "\<forall>item \<in> set (tools r). tm_server (snd item) \<noteq> Some ?server"
    using inv br unfolding bracket_free_def by blast
  then have none: "snd (scan_server (tools r) ?server) = None"
    by (rule no_entry_no_config)
  have mcp: "get_mcp_runtime lib r ?ref = (r, Inr None)"
    using miss none parts by (simp add: get_mcp_runtime_def)
  show ?thesis
    using pre mcp not_local
    by (auto simp: get_tool_runtime_def split: option.splits)
qed

lemma parse_bracket_ref:
  assumes p1: "CHR ''['' \<notin> set p" and p2: "CHR '']'' \<notin> set p" and c2: "CHR '']'' \<notin> set caps"
    and cfg: "map_of cfgs p = Some sc" and ty: "sc_type sc = Some ''stdio''"
    and cmd: "build_command getenv sc = Inr (Some command)" and ne: "command \<noteq> []"
  shows "parse_mcp_config getenv cfgs [''mcp:'' @ p @ ''['' @ caps @ '']''] =
     (case resolved_env getenv sc of
        None \<Rightarrow> Inl TypeError
      | Some e \<Rightarrow>
          Inr \<lparr>pr_commands = [command],
               pr_env = dict_update [] e,
               pr_include_tools = Some (map strip (split CHR '','' caps)),
               pr_servers = [(p, Some (map strip (split CHR '','' caps)))]\<rparr>)"
proof -
  let ?c = "p @ ''['' @ caps @ '']''"
  from read_opening_first [OF p1 p2 c2, of "[]"]
  have rd: "read_server_name ?c = p" "read_tools ?c = Some (map strip (split CHR '','' caps))"
    by simp_all
  have pre: "startswith (''mcp:'' @ ?c) ''mcp:'' = True" "drop 4 (''mcp:'' @ ?c) = ?c"
    by (simp_all add: startswith_def)
  have ne': "map strip (split CHR '','' caps) \<noteq> []"
    by (simp add: split_nonempty)
  have step: "parse_step getenv cfgs (''mcp:'' @ ?c) (empty_result, []) =
      (case resolved_env getenv sc of
         None \<Rightarrow> Inl TypeError
       | Some e \<Rightarrow>
          Inr (empty_result\<lparr>pr_commands := [command],
             pr_servers := [(p, Some (map strip (split CHR '','' caps)))],
             pr_env := dict_update [] e\<rparr>,
           map strip (split CHR '','' caps)))"
    unfolding parse_step_def Let_def pre if_True rd
    by (simp add: cfg ty cmd ne empty_result_def split: option.splits)
  show ?thesis
    unfolding parse_mcp_config_def parse_loop.simps step
    using ne' by (simp add: empty_result_def split: option.splits)
qed

text \<open>
  The empty registry follows the reference grammar, and every operation of the registry
  keeps it so, as long as providers are registered under names without an opening
  bracket and local tools under names that do not start with \<^verbatim>\<open>mcp:\<close>.
\<close>

lemma bracket_free_init: "bracket_free init_registry"
  by (simp add: bracket_free_def init_registry_def)

lemma ball_update:
  assumes "\<forall>item \<in> set al. P item" and "P (k, v)"
  shows "\<forall>item \<in> set (AList.update k v al). P item"
  using assms by (induction al) auto

lemma bracket_free_register_local_tool:
  assumes "bracket_free r" and "\<not> startswith name ''mcp:''"
  shows "bracket_free (register_local_tool r name f c)"
proof -
  let ?P = "\<lambda>item. (tm_type (snd item) = LOCAL \<longrightarrow> \<not> startswith (fst item) ''mcp:'') \<and>
               (\<forall>s. tm_server (snd item) = Some s \<longrightarrow> CHR ''['' \<notin> set s)"
  let ?md = "\<lparr>tm_name = name, tm_type = LOCAL, tm_server = None,
         tm_runtime_factory = f, tm_config = config_or_empty c\<rparr>"
  from assms(1) have "\<forall>item \<in> set (tools r). ?P item"
    by (simp add: bracket_free_def)
  moreover have "?P (name, ?md)" using assms(2) by simp
  ultimately have "\<forall>item \<in> set (AList.update name ?md (tools r)). ?P item"
    by (rule ball_update)
  with assms(1) show ?thesis
    by (simp add: bracket_free_def register_local_tool_def)
qed

lemma bracket_free_register_mcp_tool:
  assumes "bracket_free r" and "CHR ''['' \<notin> set server"
  shows "bracket_free (register_mcp_tool r n server c)"
proof -
  let ?P = "\<lambda>item. (tm_type (snd item) = LOCAL \<longrightarrow> \<not> startswith (fst item) ''mcp:'') \<and>
               (\<forall>s. tm_server (snd item) = Some s \<longrightarrow> CHR ''['' \<notin> set s)"
  from assms(1) have "\<forall>item \<in> set (tools r). ?P item"
    by (simp add: bracket_free_def)
  moreover have "?P (full_name n server, mcp_metadata n server c)"
    using assms(2) by (simp add: mcp_metadata_def)
  ultimately have
    "\<forall>item \<in> set (AList.update (full_name n server) (mcp_metadata n server c) (tools r)). ?P item"
    by (rule ball_update)
  with assms(1) show ?thesis
    by (simp add: bracket_free_def register_mcp_tool_def)
qed

lemma bracket_free_register_mcp_server_tools:
  assumes "bracket_free r" and "CHR ''['' \<notin> set server"
  shows "bracket_free (register_mcp_server_tools r server ts config)"
proof -
  have "bracket_free (fold (\<lambda>tool r'. register_mcp_tool r' (Some tool) server c) ts r)" for c
    using assms(1)
    by (induction ts arbitrary: r) (simp_all add: bracket_free_register_mcp_tool assms(2))
  then show ?thesis
    by (simp add: register_mcp_server_tools_def bracket_free_register_mcp_tool assms(2))
qed

lemma bracket_free_clear_mcp_cache: "bracket_free r \<Longrightarrow> bracket_free (clear_mcp_cache r)"
  by (simp add: bracket_free_def clear_mcp_cache_def)

lemma serves_in_filter:
  "first_config items server \<noteq> None \<Longrightarrow> \<exists>item \<in> set items. tm_server (snd item) = Some server"
proof -
  assume "first_config items server \<noteq> None"
  then have "filter (serves server) items \<noteq> []"
    by (auto simp: first_config_def)
  then obtain item where "item \<in> set (filter (serves server) items)"
    by (cases "filter (serves server) items") auto
  then show ?thesis by (auto simp: serves_def)
qed

lemma bracket_free_get_mcp_runtime:
  assumes inv: "bracket_free r"
  shows "bracket_free (fst (get_mcp_runtime lib r ref))"
proof (cases "mcp_runtime_cache r ref")
  case (Some h)
  with inv show ?thesis by (simp add: get_mcp_runtime_hit)
next
  case None
  show ?thesis
  proof (cases "2 \<le> length (split CHR '':'' ref) \<and>
         first_config (tools r) (split CHR '':'' ref ! 1) \<noteq> None")
    case False
    then have "get_mcp_runtime lib r ref = (r, Inr None)"
      using get_mcp_runtime_miss [OF None, of lib]
        scan_server_None_iff [of "tools r" "split CHR '':'' ref ! 1"]
      by (auto split: option.splits)
    with inv show ?thesis by simp
  next
    case True
    then obtain item where "item \<in> set (tools r)"
      and "tm_server (snd item) = Some (split CHR '':'' ref ! 1)"
      using serves_in_filter by blast
    with inv have nb: "CHR ''['' \<notin> set (split CHR '':'' ref ! 1)"
      unfolding bracket_free_def by blast
    from True obtain c where "snd (scan_server (tools r) (split CHR '':'' ref ! 1)) = Some c"
      using scan_server_None_iff [of "tools r" "split CHR '':'' ref ! 1"] by auto
    with True get_mcp_runtime_miss [OF None, of lib] inv nb show ?thesis
      by (auto simp: bracket_free_def Let_def)
  qed
qed

lemma bracket_free_get_tool_runtime:
  assumes inv: "bracket_free r"
  shows "bracket_free (fst (get_tool_runtime lib r ref))"
proof -
  have f: "bracket_free (fst (call_factory r f))" for f
    using inv by (cases f) (simp_all add: bracket_free_def)
  from inv f bracket_free_get_mcp_runtime [OF inv, of lib ref] show ?thesis
    by (auto simp: get_tool_runtime_def split: option.splits)
qed

lemma bracket_free_get_combined_mcp_runtime:
  assumes inv: "bracket_free r"
  shows "bracket_free (fst (get_combined_mcp_runtime lib r refs))"
proof -
  obtain r' h where c: "get_combined_mcp_runtime lib r refs = (r', h)"
    by (cases "get_combined_mcp_runtime lib r refs")
  from get_combined_mcp_runtime_fresh [OF c] inv have "bracket_free r'"
    by (auto simp: bracket_free_def)
  with c show ?thesis by simp
qed

lemma bracket_free_resolve_each:
  "bracket_free r \<Longrightarrow> bracket_free (fst (resolve_each lib r refs))"
proof (induction refs arbitrary: r)
  case Nil
  then show ?case by simp
next
  case (Cons ref refs)
  obtain r1 t where g: "get_tool_runtime lib r ref = (r1, t)"
    by (cases "get_tool_runtime lib r ref")
  from bracket_free_get_tool_runtime [OF Cons.prems, of lib ref] g have b1: "bracket_free r1"
    by simp
  show ?case
  proof (cases t)
    case (Inl e)
    with g b1 show ?thesis by simp
  next
    case (Inr v)
    obtain r2 ts where e: "resolve_each lib r1 refs = (r2, ts)"
      by (cases "resolve_each lib r1 refs")
    from Cons.IH [OF b1] e have "bracket_free r2" by simp
    with g e Inr show ?thesis by (cases ts) simp_all
  qed
qed

lemma bracket_free_get_tools_for_agent:
  assumes inv: "bracket_free r"
  shows "bracket_free (fst (get_tools_for_agent lib r refs))"
proof -
  let ?locals = "filter (\<lambda>ref. \<not> startswith ref ''mcp:'') refs"
  let ?remotes = "filter (\<lambda>ref. startswith ref ''mcp:'') refs"
  obtain r1 ts where e: "resolve_each lib r ?locals = (r1, ts)"
    by (cases "resolve_each lib r ?locals")
  obtain r2 h where c: "get_combined_mcp_runtime lib r1 ?remotes = (r2, h)"
    by (cases "get_combined_mcp_runtime lib r1 ?remotes")
  from bracket_free_resolve_each [OF inv, of lib ?locals] e have a: "bracket_free r1"
    by simp
  from bracket_free_get_combined_mcp_runtime [OF a, of lib ?remotes] c have b: "bracket_free r2"
    by simp
  have "fst (resolveMany lib r refs) = r1 \<or> fst (resolveMany lib r refs) = r2"
    using e c by (cases ts; cases h) (simp_all add: resolveMany_def Let_def)
  with a b show ?thesis
    by (auto simp: get_tools_for_agent_resolveMany)
qed

lemma demo_bracket_free: "bracket_free demo_registry"
  unfolding demo_registry_def
  by (intro bracket_free_register_mcp_server_tools bracket_free_register_local_tool
      bracket_free_init) (simp_all add: startswith_def)

text \<open>
  C10. For a provider \<open>p\<close> and a capability list written in the bracket grammar (names
  without colons and brackets), \<^verbatim>\<open>get_tool_runtime\<close> returns \<^verbatim>\<open>None\<close> and changes
  nothing in every registry that follows the reference grammar, whether or not \<open>p\<close> is
  registered and whatever the library accepts: the lookup splits at colons only and takes
  the bracketed text as part of the provider name. \<^verbatim>\<open>parse_mcp_config\<close> reads the same
  reference as provider \<open>p\<close> with the stripped capability names, when \<open>p\<close> is
  configured with a launch command (and raises \<^verbatim>\<open>TypeError\<close> when the \<^verbatim>\<open>env\<close> of
  \<open>p\<close> is \<^verbatim>\<open>None\<close>).
\<close>

theorem get_tool_runtime_ignores_brackets:
  assumes "CHR '':'' \<notin> set p" and "CHR '':'' \<notin> set caps"
    and "bracket_free r"
    and "CHR ''['' \<notin> set p" and "CHR '']'' \<notin> set p" and "CHR '']'' \<notin> set caps"
    and "map_of cfgs p = Some sc" and "sc_type sc = Some ''stdio''"
    and "build_command getenv sc = Inr (Some command)" and "command \<noteq> []"
  shows "get_tool_runtime lib r (''mcp:'' @ p @ ''['' @ caps @ '']'') = (r, Inr None) \<and>
     parse_mcp_config getenv cfgs [''mcp:'' @ p @ ''['' @ caps @ '']''] =
     (case resolved_env getenv sc of
        None \<Rightarrow> Inl TypeError
      | Some e \<Rightarrow>
          Inr \<lparr>pr_commands = [command],
               pr_env = dict_update [] e,
               pr_include_tools = Some (map strip (split CHR '','' caps)),
               pr_servers = [(p, Some (map strip (split CHR '','' caps)))]\<rparr>)"
  using assms by (simp only: get_tool_runtime_bracket_ref parse_bracket_ref simp_thms)

theorem get_tool_runtime_ignores_brackets_witness:
  "get_tool_runtime agno demo_registry ''mcp:custom_tools[generate_id,get_timestamp]'' =
     (demo_registry, Inr None) \<and>
   parse_mcp_config no_env demo_servers [''mcp:custom_tools[generate_id,get_timestamp]''] =
     Inr \<lparr>pr_commands = [''python custom_tools_server.py''], pr_env = [],
          pr_include_tools = Some [''generate_id'', ''get_timestamp''],
          pr_servers = [(''custom_tools'', Some [''generate_id'', ''get_timestamp''])]\<rparr>"
proof -
  let ?sc = "\<lparr>sc_type = Some ''stdio'', sc_command = Some (Some ''python''),
         sc_args = Some (Some [''custom_tools_server.py'']), sc_env = None\<rparr>"
  have h: "CHR '':'' \<notin> set ''custom_tools''" "CHR '':'' \<notin> set ''generate_id,get_timestamp''"
    "CHR ''['' \<notin> set ''custom_tools''" "CHR '']'' \<notin> set ''custom_tools''"
    "CHR '']'' \<notin> set ''generate_id,get_timestamp''"
    by simp_all
  have c: "map_of demo_servers ''custom_tools'' = Some ?sc"
    by (simp add: demo_servers_def)
  have t: "sc_type ?sc = Some ''stdio''" by simp
  have b: "build_command no_env ?sc = Inr (Some ''python custom_tools_server.py'')"
    by (simp add: build_command_def resolve_env_vars_def startswith_def endswith_def)
  have n: "''python custom_tools_server.py'' \<noteq> []" by simp
  from get_tool_runtime_ignores_brackets [OF h(1) h(2) demo_bracket_free h(3) h(4) h(5) c t b n,
      of agno]
  show ?thesis
    by (simp add: dict_update_def resolve_env_def resolved_env_def strip_def is_space_def)
qed

section \<open>Properties of the server manager\<close>

lemmas manager_defs = initialize_all_servers_def initialize_server_def discover_server_tools_def
  build_command_def resolved_env_def resolve_env_vars_def resolve_env_def three_manager_def three_servers_def
  faulty_manager_def probe_B_fails_def no_env_def launchable_def catalog_keys_def
  provider_registered_def

lemma launchable_iff:
  "launchable getenv sc =
     (sc_type sc = Some ''stdio'' \<and> sc_command sc \<noteq> Some None \<and> sc_args sc \<noteq> Some None)"
  by (auto simp: launchable_def build_command_def Let_def split: option.splits)

lemma discover_server_tools_probe_fails:
  "probe n command e = Inl x \<Longrightarrow> build_command getenv sc = Inr (Some command) \<Longrightarrow>
   e = env_or_none (resolved_env getenv sc) \<Longrightarrow>
   discover_server_tools getenv probe n sc = []"
  by (simp add: discover_server_tools_def)

lemma provider_registered_mono:
  "catalog_keys st \<subseteq> catalog_keys st' \<Longrightarrow> provider_registered getenv probe st n sc \<Longrightarrow>
   provider_registered getenv probe st' n sc"
  unfolding provider_registered_def by blast

lemma initialize_server_effect:
  assumes un: "map_of (initialized_servers m) n = None"
    and cfg: "map_of (mcp_servers m) n = Some sc"
  shows "snd (initialize_server getenv probe (m, r) n) = launchable getenv sc \<and>
     mcp_servers (fst (fst (initialize_server getenv probe (m, r) n))) = mcp_servers m \<and>
     (\<forall>n'. n' \<noteq> n \<longrightarrow>
        map_of (initialized_servers (fst (fst (initialize_server getenv probe (m, r) n)))) n' =
        map_of (initialized_servers m) n') \<and>
     catalog_keys (m, r) \<subseteq> catalog_keys (fst (initialize_server getenv probe (m, r) n)) \<and>
     (launchable getenv sc \<longrightarrow>
        provider_registered getenv probe (fst (initialize_server getenv probe (m, r) n)) n sc)"
proof (cases "sc_type sc = Some ''stdio''")
  case False
  with un cfg show ?thesis
    by (simp add: initialize_server_def launchable_def catalog_keys_def provider_registered_def)
next
  case True
  show ?thesis
  proof (cases "build_command getenv sc")
    case (Inl e)
    with True un cfg show ?thesis
      by (simp add: initialize_server_def launchable_def update_conv' catalog_keys_def provider_registered_def)
  next
    case (Inr command)
    let ?ts = "discover_server_tools getenv probe n sc"
    show ?thesis
    proof (cases "?ts = []")
      case True
      with \<open>sc_type sc = Some ''stdio''\<close> Inr un cfg show ?thesis
        by (auto simp: initialize_server_def launchable_def update_conv' Let_def catalog_keys_def provider_registered_def
            keys_register_mcp_tool full_name_def)
    next
      case False
      with \<open>sc_type sc = Some ''stdio''\<close> Inr un cfg show ?thesis
        by (auto simp: initialize_server_def launchable_def update_conv' Let_def catalog_keys_def provider_registered_def
            keys_register_mcp_server_tools)
    qed
  qed
qed

lemma run_tasks_effect:
  assumes "distinct order"
    and "\<forall>n \<in> set order. map_of (initialized_servers m) n = None"
  shows "mcp_servers (fst (fst (run_tasks getenv probe order (m, r)))) = mcp_servers m \<and>
     catalog_keys (m, r) \<subseteq> catalog_keys (fst (run_tasks getenv probe order (m, r))) \<and>
     (\<forall>n sc. n \<in> set order \<longrightarrow> map_of (mcp_servers m) n = Some sc \<longrightarrow>
        map_of (snd (run_tasks getenv probe order (m, r))) n = Some (launchable getenv sc) \<and>
        (launchable getenv sc \<longrightarrow>
           provider_registered getenv probe (fst (run_tasks getenv probe order (m, r))) n sc))"
  using assms
proof (induction order arbitrary: m r)
  case Nil
  then show ?case by simp
next
  case (Cons a order)
  obtain m1 r1 b where i: "initialize_server getenv probe (m, r) a = ((m1, r1), b)"
    by (cases "initialize_server getenv probe (m, r) a") auto
  obtain st2 sts where t: "run_tasks getenv probe order (m1, r1) = (st2, sts)"
    by (cases "run_tasks getenv probe order (m1, r1)")
  have run: "run_tasks getenv probe (a # order) (m, r) = (st2, (a, b) # sts)"
    by (simp add: i t)
  from Cons.prems have un: "map_of (initialized_servers m) a = None"
    and d: "distinct order" and na: "a \<notin> set order"
    and rest: "\<forall>n \<in> set order. map_of (initialized_servers m) n = None"
    by auto
  have first: "mcp_servers m1 = mcp_servers m \<and>
      (\<forall>n'. n' \<noteq> a \<longrightarrow> map_of (initialized_servers m1) n' = map_of (initialized_servers m) n') \<and>
      catalog_keys (m, r) \<subseteq> catalog_keys (m1, r1) \<and>
      (\<forall>sc. map_of (mcp_servers m) a = Some sc \<longrightarrow>
         b = launchable getenv sc \<and>
         (launchable getenv sc \<longrightarrow> provider_registered getenv probe (m1, r1) a sc))"
  proof (cases "map_of (mcp_servers m) a")
    case None
    with un i have "m1 = m" "r1 = r"
      by (auto simp: initialize_server_def)
    with None show ?thesis by simp
  next
    case (Some sc)
    from initialize_server_effect [OF un Some, of getenv probe r] i Some
    show ?thesis by simp
  qed
  have rest1: "\<forall>n \<in> set order. map_of (initialized_servers m1) n = None"
  proof
    fix n assume n: "n \<in> set order"
    with na have "n \<noteq> a" by auto
    with first have "map_of (initialized_servers m1) n = map_of (initialized_servers m) n"
      by blast
    with rest n show "map_of (initialized_servers m1) n = None"
      by simp
  qed
  from Cons.IH [OF d rest1, of r1] t first
  have ih1: "mcp_servers (fst st2) = mcp_servers m"
    and ih2: "catalog_keys (m1, r1) \<subseteq> catalog_keys st2"
    and ih3: "\<forall>n sc. n \<in> set order \<longrightarrow> map_of (mcp_servers m) n = Some sc \<longrightarrow>
        map_of sts n = Some (launchable getenv sc) \<and>
        (launchable getenv sc \<longrightarrow> provider_registered getenv probe st2 n sc)"
    by simp_all
  from first ih2 have keys: "catalog_keys (m, r) \<subseteq> catalog_keys st2"
    by blast
  have all: "map_of ((a, b) # sts) n = Some (launchable getenv sc) \<and>
        (launchable getenv sc \<longrightarrow> provider_registered getenv probe st2 n sc)"
    if n: "n \<in> set (a # order)" and c: "map_of (mcp_servers m) n = Some sc" for n sc
  proof (cases "n = a")
    case True
    with first c have b: "b = launchable getenv sc"
      and reg: "launchable getenv sc \<longrightarrow> provider_registered getenv probe (m1, r1) a sc"
      by auto
    from reg ih2 have "launchable getenv sc \<longrightarrow> provider_registered getenv probe st2 a sc"
      using provider_registered_mono by blast
    with True b show ?thesis by simp
  next
    case False
    with n have "n \<in> set order" by simp
    with ih3 c False show ?thesis by simp
  qed
  from ih1 keys all show ?case
    unfolding run fst_conv snd_conv by blast
qed

text \<open>
  C7, as the code has it. On a manager that has initialized nothing yet, whatever the
  order in which the tasks finish, \<^verbatim>\<open>initialize_all_servers\<close> reports for every
  configured provider, in the order of the configuration, whether it can be launched (its
  type is \<^verbatim>\<open>stdio\<close> and its command can be built); the outcome of the discovery probe
  has no part in the status. No key leaves the catalog, and every provider that can be
  launched is registered: with its server-wide entry, and with an entry for each
  capability that its discovery returned. A provider whose probe fails is therefore
  reported \<^verbatim>\<open>True\<close> and registered with the server-wide entry alone.
\<close>

theorem initialize_all_servers_status:
  assumes fresh: "initialized_servers m = []"
    and names: "distinct (map fst (mcp_servers m))"
    and perm: "distinct order" "set order = fst ` set (mcp_servers m)"
  shows "snd (initialize_all_servers getenv probe order (m, r)) =
       map (\<lambda>entry. (fst entry, launchable getenv (snd entry))) (mcp_servers m) \<and>
     catalog_keys (m, r) \<subseteq> catalog_keys (fst (initialize_all_servers getenv probe order (m, r))) \<and>
     (\<forall>entry \<in> set (mcp_servers m). launchable getenv (snd entry) \<longrightarrow>
        provider_registered getenv probe
          (fst (initialize_all_servers getenv probe order (m, r))) (fst entry) (snd entry))"
proof -
  obtain st' sts where t: "run_tasks getenv probe order (m, r) = (st', sts)"
    by (cases "run_tasks getenv probe order (m, r)")
  have un: "\<forall>n \<in> set order. map_of (initialized_servers m) n = None"
    by (simp add: fresh)
  from run_tasks_effect [OF perm(1) un, of getenv probe r] t
  have keys: "catalog_keys (m, r) \<subseteq> catalog_keys st'"
    and e: "\<forall>n sc. n \<in> set order \<longrightarrow> map_of (mcp_servers m) n = Some sc \<longrightarrow>
        map_of sts n = Some (launchable getenv sc) \<and>
        (launchable getenv sc \<longrightarrow> provider_registered getenv probe st' n sc)"
    by simp_all
  have each: "map_of sts (fst entry) = Some (launchable getenv (snd entry)) \<and>
        (launchable getenv (snd entry) \<longrightarrow>
           provider_registered getenv probe st' (fst entry) (snd entry))"
    if "entry \<in> set (mcp_servers m)" for entry
  proof -
    from that names have "map_of (mcp_servers m) (fst entry) = Some (snd entry)"
      by (simp add: map_of_eq_Some_iff)
    moreover from that perm(2) have "fst entry \<in> set order" by simp
    ultimately show ?thesis using e by blast
  qed
  have res: "snd (initialize_all_servers getenv probe order (m, r)) =
       map (\<lambda>entry. (fst entry, launchable getenv (snd entry))) (mcp_servers m)"
    using each by (simp add: initialize_all_servers_def t)
  have st: "fst (initialize_all_servers getenv probe order (m, r)) = st'"
    by (simp add: initialize_all_servers_def t)
  from res keys each show ?thesis unfolding st by blast
qed

theorem initialize_all_servers_status_witness:
  "snd (initialize_all_servers no_env probe_B_fails [''C'', ''A'', ''B'']
          (three_manager, init_registry)) =
     [(''A'', True), (''B'', True), (''C'', True)]"
proof -
  have fresh: "initialized_servers three_manager = []"
    by (simp add: three_manager_def)
  have names: "distinct (map fst (mcp_servers three_manager))"
    by (simp add: three_manager_def three_servers_def)
  have d: "distinct [''C'', ''A'', ''B'']" by simp
  have s: "set [''C'', ''A'', ''B''] = fst ` set (mcp_servers three_manager)"
    by (auto simp: three_manager_def three_servers_def)
  from initialize_all_servers_status [OF fresh names d s, of no_env probe_B_fails init_registry]
  have "snd (initialize_all_servers no_env probe_B_fails [''C'', ''A'', ''B'']
          (three_manager, init_registry)) =
       map (\<lambda>entry. (fst entry, launchable no_env (snd entry))) (mcp_servers three_manager)"
    by blast
  also have "\<dots> = [(''A'', True), (''B'', True), (''C'', True)]"
    by (simp add: three_manager_def three_servers_def launchable_iff)
  finally show ?thesis .
qed

text \<open>
  The claim C7 as stated fails: with the probe of \<^verbatim>\<open>B\<close> failing, the status of
  \<^verbatim>\<open>B\<close> is \<^verbatim>\<open>True\<close>, and \<^verbatim>\<open>B\<close> is in the catalog with its server-wide entry.
\<close>

theorem failed_probe_reported_true:
  "snd (initialize_all_servers no_env probe_B_fails [''A'', ''B'', ''C'']
          (three_manager, init_registry)) =
     [(''A'', True), (''B'', True), (''C'', True)] \<and>
   map fst (tools (snd (fst (initialize_all_servers no_env probe_B_fails [''A'', ''B'', ''C'']
          (three_manager, init_registry))))) =
     [''mcp:A:a1'', ''mcp:A:a2'', ''mcp:A'', ''mcp:B'', ''mcp:C:c1'', ''mcp:C''] \<and>
   initialized_servers (fst (fst (initialize_all_servers no_env probe_B_fails
          [''A'', ''B'', ''C''] (three_manager, init_registry)))) =
     [(''A'', True), (''B'', True), (''C'', True)]"
  by (simp add: manager_defs registry_defs Let_def)

lemma faulty_command_reported_false:
  "snd (initialize_all_servers no_env probe_B_fails [''A'', ''B'', ''C'', ''D'', ''E'']
          (faulty_manager, init_registry)) =
     [(''A'', True), (''B'', True), (''C'', True), (''D'', False), (''E'', False)]"
  by (simp add: manager_defs registry_defs Let_def)

text \<open>
  A provider without a command is reported \<^verbatim>\<open>True\<close> and registered with the command
  \<^verbatim>\<open>None\<close>, and resolving it raises; a provider whose \<^verbatim>\<open>env\<close> is \<^verbatim>\<open>None\<close> is
  registered with that value, and a combination request that names it raises.
\<close>

lemma registered_without_command_raises:
  "snd (initialize_all_servers no_env probe_B_fails [''F'', ''G''] (bare_manager, init_registry)) =
     [(''F'', True), (''G'', True)] \<and>
   snd (get_tool_runtime agno
          (snd (fst (initialize_all_servers no_env probe_B_fails [''F'', ''G'']
                       (bare_manager, init_registry)))) ''mcp:F'') = Inl ValueError \<and>
   snd (get_tool_runtime agno
          (snd (fst (initialize_all_servers no_env probe_B_fails [''F'', ''G'']
                       (bare_manager, init_registry)))) ''mcp:G'') =
     Inr (Some (MCPTools 0 (Some ''g'') None None)) \<and>
   snd (get_combined_mcp_runtime agno
          (snd (fst (initialize_all_servers no_env probe_B_fails [''F'', ''G'']
                       (bare_manager, init_registry)))) [''mcp:G'']) = Inl TypeError"
  by (simp add: manager_defs registry_defs bare_manager_def Let_def)

end
